theory Spec2Isabelle
  imports Complex_Main "HOL-Library.AList"
begin

section \<open>Python values and the library interface\<close>

text \<open>
  The DAG \<open>create_aq_report\<close> of \<open>dags/create_hourly_air_quality_report.py\<close> has three
  tasks: \<open>get_aq_data_last_day\<close>, \<open>caluclate_avg_aq_per_hour\<close> and \<open>send_aq_report\<close>.
  Each raise of the source is a value of \<open>exn\<close> on the left of a sum.
\<close>

datatype exn = KeyError | TypeError | ValueError | OverflowError | AirflowSkipException

text \<open>
  A row of \<open>csv.DictReader\<close> is a dict from column names to cells; a cell is a string, or
  \<open>None\<close> where the line was shorter than the header.
\<close>

datatype cell = CStr string | CNone

type_synonym row = "string \<rightharpoonup> cell"

text \<open>
  An aware \<open>datetime\<close>: its wall-clock position in microseconds since
  \<open>0001-01-01T00:00:00\<close> (so \<open>toordinal()\<close> is \<open>local_us div us_per_day + 1\<close>) and the
  offset of its \<open>tzinfo\<close> in microseconds east of UTC.
\<close>

record datetime =
  local_us :: int
  utcoffset :: int

definition us_per_hour :: int where
  "us_per_hour = 3600000000"

definition us_per_day :: int where
  "us_per_day = 24 * us_per_hour"

definition max_ordinal :: int where
  "max_ordinal = 3652059"

text \<open>The attribute \<open>.hour\<close>: the hour of the wall clock, whatever the date and the offset.\<close>

definition hour :: "datetime \<Rightarrow> int" where
  "hour d = (local_us d div us_per_hour) mod 24"

text \<open>\<open>timedelta(hours=n)\<close>, as microseconds.\<close>

definition timedelta_hours :: "int \<Rightarrow> int" where
  "timedelta_hours n = n * us_per_hour"

text \<open>
  \<open>d - delta\<close>: the wall clock moves, the \<open>tzinfo\<close> stays; a result whose ordinal leaves
  \<open>1..max_ordinal\<close> raises \<open>OverflowError\<close>.
\<close>

definition datetime_sub :: "datetime \<Rightarrow> int \<Rightarrow> exn + datetime" where
  "datetime_sub d delta =
     (let t = local_us d - delta; days = t div us_per_day + 1
      in if 0 < days \<and> days \<le> max_ordinal then Inr (d\<lparr>local_us := t\<rparr>)
         else Inl OverflowError)"

text \<open>The point of the UTC time line an aware datetime denotes.\<close>

definition utc_us :: "datetime \<Rightarrow> int" where
  "utc_us d = local_us d - utcoffset d"

text \<open>\<open>a >= b\<close> on aware datetimes compares after subtracting the offsets.\<close>

definition datetime_ge :: "datetime \<Rightarrow> datetime \<Rightarrow> bool" where
  "datetime_ge a b = (utc_us b \<le> utc_us a)"

text \<open>
  The library functions the tasks call on strings and floats are parameters of the model:
  \<^item> \<open>strptime s\<close> is \<open>datetime.strptime(s, "%Y-%m-%dT%H:%M:%S%z")\<close>, \<open>None\<close> where it
    raises \<open>ValueError\<close>;
  \<^item> \<open>pyfloat s\<close> is \<open>float(s)\<close> on a string, \<open>None\<close> where it raises \<open>ValueError\<close>;
  \<^item> \<open>pysum vs\<close> is \<open>sum(vs)\<close> on a list of floats;
  \<^item> \<open>truediv x n\<close> is \<open>x / n\<close> for a float \<open>x\<close> and an int \<open>n\<close>;
  \<^item> \<open>pystr x\<close> is the text an f-string gives a float.
  The type \<open>'f\<close> stands for Python's float.
\<close>

record 'f pylib =
  strptime :: "string \<Rightarrow> datetime option"
  pyfloat :: "string \<Rightarrow> 'f option"
  pysum :: "'f list \<Rightarrow> 'f"
  truediv :: "'f \<Rightarrow> int \<Rightarrow> 'f"
  pystr :: "'f \<Rightarrow> string"

text \<open>The part of the task context the tasks read: \<open>context["ts"]\<close> and the DAG param.\<close>

record task_context =
  ts :: string
  delay_aq_fetch :: bool

text \<open>List comprehensions whose element or condition may raise: the first raise wins.\<close>

fun mapE :: "('a \<Rightarrow> exn + 'b) \<Rightarrow> 'a list \<Rightarrow> exn + 'b list" where
  "mapE f [] = Inr []"
| "mapE f (x # xs) =
     (case f x of
        Inl e \<Rightarrow> Inl e
      | Inr y \<Rightarrow> (case mapE f xs of Inl e \<Rightarrow> Inl e | Inr ys \<Rightarrow> Inr (y # ys)))"

fun filterE :: "('a \<Rightarrow> exn + bool) \<Rightarrow> 'a list \<Rightarrow> exn + 'a list" where
  "filterE p [] = Inr []"
| "filterE p (x # xs) =
     (case p x of
        Inl e \<Rightarrow> Inl e
      | Inr b \<Rightarrow> (case filterE p xs of
                    Inl e \<Rightarrow> Inl e
                  | Inr ys \<Rightarrow> Inr (if b then x # ys else ys)))"

text \<open>
  \<open>datetime.strptime(row["timestamp"], ...)\<close> and \<open>float(row[k])\<close>: a missing column
  raises \<open>KeyError\<close>, a \<open>None\<close> cell \<open>TypeError\<close>, an unparsable string \<open>ValueError\<close>.
\<close>

definition row_datetime :: "'f pylib \<Rightarrow> row \<Rightarrow> exn + datetime" where
  "row_datetime L r =
     (case r ''timestamp'' of
        None \<Rightarrow> Inl KeyError
      | Some CNone \<Rightarrow> Inl TypeError
      | Some (CStr s) \<Rightarrow> (case strptime L s of None \<Rightarrow> Inl ValueError | Some d \<Rightarrow> Inr d))"

definition row_float :: "'f pylib \<Rightarrow> string \<Rightarrow> row \<Rightarrow> exn + 'f" where
  "row_float L k r =
     (case r k of
        None \<Rightarrow> Inl KeyError
      | Some CNone \<Rightarrow> Inl TypeError
      | Some (CStr s) \<Rightarrow> (case pyfloat L s of None \<Rightarrow> Inl ValueError | Some x \<Rightarrow> Inr x))"

section \<open>Task \<open>get_aq_data_last_day\<close>\<close>

text \<open>
  \<open>cutoff_time = strptime(context["ts"]) - timedelta(hours=23)\<close> (lines 52-55).
\<close>

definition cutoff_time :: "'f pylib \<Rightarrow> task_context \<Rightarrow> exn + datetime" where
  "cutoff_time L ctx =
     (case strptime L (ts ctx) of
        None \<Rightarrow> Inl ValueError
      | Some run \<Rightarrow> datetime_sub run (timedelta_hours 23))"

text \<open>
  The file \<open>include/aq_data.csv\<close> is \<open>None\<close> when \<open>os.path.isfile\<close> is false, and
  otherwise the rows \<open>list(csv.DictReader(file))\<close> gives. The sleep of 61 minutes under
  \<open>delay_aq_fetch\<close> changes no value and has no counterpart. The cutoff is computed before
  the file is looked at, as in the source.
\<close>

definition get_aq_data_last_day ::
  "'f pylib \<Rightarrow> task_context \<Rightarrow> row list option \<Rightarrow> exn + row list" where
  "get_aq_data_last_day L ctx file =
     (case cutoff_time L ctx of
        Inl e \<Rightarrow> Inl e
      | Inr cutoff \<Rightarrow>
          (case file of
             None \<Rightarrow> Inl AirflowSkipException
           | Some data \<Rightarrow>
               filterE (\<lambda>row. case row_datetime L row of
                                 Inl e \<Rightarrow> Inl e
                               | Inr d \<Rightarrow> Inr (datetime_ge d cutoff)) data))"

section \<open>Task \<open>caluclate_avg_aq_per_hour\<close>\<close>

text \<open>\<open>str(n)\<close> for an int.\<close>

definition digit_char :: "nat \<Rightarrow> char" where
  "digit_char d = char_of (48 + d)"

fun str_nat :: "nat \<Rightarrow> string" where
  "str_nat n = (if n < 10 then [digit_char n] else str_nat (n div 10) @ [digit_char (n mod 10)])"

declare str_nat.simps [simp del]

definition str_int :: "int \<Rightarrow> string" where
  "str_int i = (if i < 0 then CHR ''-'' # str_nat (nat (- i)) else str_nat (nat i))"

text \<open>An average is a float or the string \<open>"NO DATA"\<close>.\<close>

datatype 'f pyval = PyFloat 'f | PyStr string

definition NO_DATA :: "'f pyval" where
  "NO_DATA = PyStr ''NO DATA''"

record 'f hourly_average =
  avg_pm2_5 :: "'f pyval"
  avg_pm10 :: "'f pyval"

text \<open>
  A Python dict keeps insertion order and has each key once: an association list, with
  \<open>d[k] = v\<close> as \<open>AList.update k v d\<close> (a new key goes to the end, a present key keeps its
  place).
\<close>

type_synonym 'f report = "(string \<times> 'f hourly_average) list"

text \<open>\<open>[(current_hour - i) % 24 for i in range(24)]\<close> (line 82).\<close>

definition last_24_hours :: "int \<Rightarrow> int list" where
  "last_24_hours current_hour = map (\<lambda>i. (current_hour - i) mod 24) [0..23]"

text \<open>The rows of one hour (lines 87-92).\<close>

definition data_for_hour :: "'f pylib \<Rightarrow> row list \<Rightarrow> int \<Rightarrow> exn + row list" where
  "data_for_hour L last_day_aq_data h =
     filterE (\<lambda>row. case row_datetime L row of
                       Inl e \<Rightarrow> Inl e
                     | Inr d \<Rightarrow> Inr (hour d = h)) last_day_aq_data"

text \<open>The body of the loop over the hours (lines 87-110), up to the dict entry.\<close>

definition hour_entry :: "'f pylib \<Rightarrow> row list \<Rightarrow> int \<Rightarrow> exn + 'f hourly_average" where
  "hour_entry L last_day_aq_data h =
     (case data_for_hour L last_day_aq_data h of
        Inl e \<Rightarrow> Inl e
      | Inr rows \<Rightarrow>
     (case mapE (row_float L ''pm2_5'') rows of
        Inl e \<Rightarrow> Inl e
      | Inr pm2_5_values \<Rightarrow>
     (case mapE (row_float L ''pm10'') rows of
        Inl e \<Rightarrow> Inl e
      | Inr pm10_values \<Rightarrow>
          Inr \<lparr>avg_pm2_5 =
                 (if length pm2_5_values \<noteq> 0
                  then PyFloat (truediv L (pysum L pm2_5_values) (int (length pm2_5_values)))
                  else NO_DATA),
               avg_pm10 =
                 (if length pm10_values \<noteq> 0
                  then PyFloat (truediv L (pysum L pm10_values) (int (length pm10_values)))
                  else NO_DATA)\<rparr>)))"

fun hours_loop ::
  "'f pylib \<Rightarrow> row list \<Rightarrow> int list \<Rightarrow> 'f report \<Rightarrow> exn + 'f report" where
  "hours_loop L w [] avg_aq_per_hour = Inr avg_aq_per_hour"
| "hours_loop L w (h # hs) avg_aq_per_hour =
     (case hour_entry L w h of
        Inl e \<Rightarrow> Inl e
      | Inr entry \<Rightarrow> hours_loop L w hs (AList.update (str_int h) entry avg_aq_per_hour))"

definition caluclate_avg_aq_per_hour ::
  "'f pylib \<Rightarrow> row list \<Rightarrow> task_context \<Rightarrow> exn + 'f report" where
  "caluclate_avg_aq_per_hour L last_day_aq_data ctx =
     (case strptime L (ts ctx) of
        None \<Rightarrow> Inl ValueError
      | Some run \<Rightarrow> hours_loop L last_day_aq_data (last_24_hours (hour run)) [])"

section \<open>Task \<open>send_aq_report\<close>\<close>

text \<open>\<open>context["ts"].split("T")[0]\<close>: the text before the first \<open>T\<close>.\<close>

definition day_of :: "task_context \<Rightarrow> string" where
  "day_of ctx = takeWhile (\<lambda>c. c \<noteq> CHR ''T'') (ts ctx)"

text \<open>An f-string field: a float through \<open>pystr\<close>, a string as it is.\<close>

fun fmt :: "'f pylib \<Rightarrow> 'f pyval \<Rightarrow> string" where
  "fmt L (PyFloat x) = pystr L x"
| "fmt L (PyStr s) = s"

definition report_line :: "'f pylib \<Rightarrow> string \<Rightarrow> string \<Rightarrow> 'f hourly_average \<Rightarrow> string" where
  "report_line L day entry avg =
     ''Day '' @ day @ '' Hour '' @ entry @ '': PM2.5: '' @ fmt L (avg_pm2_5 avg)
       @ '', PM10: '' @ fmt L (avg_pm10 avg)"

text \<open>
  The loop \<open>for entry in avg_aq_per_hour\<close> over the keys, with the log of \<open>t_log.info\<close>
  as a list of lines that grows at its end. A raise leaves the lines logged so far.
\<close>

fun emit_loop ::
  "'f pylib \<Rightarrow> string \<Rightarrow> 'f report \<Rightarrow> string list \<Rightarrow> string list \<Rightarrow> exn option \<times> string list"
  where
  "emit_loop L day rep [] sink = (None, sink)"
| "emit_loop L day rep (entry # entries) sink =
     (case map_of rep entry of
        None \<Rightarrow> (Some KeyError, sink)
      | Some avg \<Rightarrow> emit_loop L day rep entries (sink @ [report_line L day entry avg]))"

definition send_aq_report ::
  "'f pylib \<Rightarrow> 'f report \<Rightarrow> task_context \<Rightarrow> string list \<Rightarrow> exn option \<times> string list" where
  "send_aq_report L avg_aq_per_hour ctx sink =
     emit_loop L (day_of ctx) avg_aq_per_hour (map fst avg_aq_per_hour) sink"

section \<open>The DAG run\<close>

text \<open>
  The three tasks are chained (lines 128-130): each takes the value the one before it
  returned. A task that raises ends the run: the tasks after it are not executed, which
  is the scheduler's default rule for a skipped or failed upstream task. A run records
  the tasks that were executed, how it ended, and the log.
\<close>

datatype stage = Extractor | Aggregator | Emitter

datatype outcome = Succeeded | Skipped | Failed exn

record run_result =
  executed :: "stage list"
  ended :: outcome
  log_lines :: "string list"

definition outcome_of :: "exn \<Rightarrow> outcome" where
  "outcome_of e = (if e = AirflowSkipException then Skipped else Failed e)"

definition create_aq_report ::
  "'f pylib \<Rightarrow> task_context \<Rightarrow> row list option \<Rightarrow> string list \<Rightarrow> run_result" where
  "create_aq_report L ctx file sink =
     (case get_aq_data_last_day L ctx file of
        Inl e \<Rightarrow> \<lparr>executed = [Extractor], ended = outcome_of e, log_lines = sink\<rparr>
      | Inr last_day \<Rightarrow>
     (case caluclate_avg_aq_per_hour L last_day ctx of
        Inl e \<Rightarrow> \<lparr>executed = [Extractor, Aggregator], ended = outcome_of e, log_lines = sink\<rparr>
      | Inr rep \<Rightarrow>
     (case send_aq_report L rep ctx sink of
        (Some e, sink') \<Rightarrow>
          \<lparr>executed = [Extractor, Aggregator, Emitter], ended = outcome_of e, log_lines = sink'\<rparr>
      | (None, sink') \<Rightarrow>
          \<lparr>executed = [Extractor, Aggregator, Emitter], ended = Succeeded, log_lines = sink'\<rparr>)))"

section \<open>An instance of the library with exact decimal arithmetic\<close>

text \<open>
  The general theorems hold for every library. The scenarios are run on one instance:
  timestamps in the fixed-width shape \<open>YYYY-MM-DDTHH:MM:SS+HH:MM\<close>, numbers as plain
  decimals, and floats as rationals, on which the scenarios' values (all small multiples
  of one half) are the ones binary floating point gives. Strings outside these shapes
  are rejected by the instance, though Python accepts some of them.
\<close>

definition digit_of :: "char \<Rightarrow> int option" where
  "digit_of c =
     (let n = (of_char c :: nat) in if 48 \<le> n \<and> n \<le> 57 then Some (int n - 48) else None)"

fun digits_acc :: "int \<Rightarrow> string \<Rightarrow> int option" where
  "digits_acc a [] = Some a"
| "digits_acc a (c # cs) =
     (case digit_of c of None \<Rightarrow> None | Some d \<Rightarrow> digits_acc (10 * a + d) cs)"

definition digits_val :: "string \<Rightarrow> int option" where
  "digits_val s = (if s = [] then None else digits_acc 0 s)"

definition is_leap :: "int \<Rightarrow> bool" where
  "is_leap y = (y mod 4 = 0 \<and> (y mod 100 \<noteq> 0 \<or> y mod 400 = 0))"

definition month_lengths :: "int list" where
  "month_lengths = [31, 28, 31, 30, 31, 30, 31, 31, 30, 31, 30, 31]"

definition days_in_month :: "int \<Rightarrow> int \<Rightarrow> int" where
  "days_in_month y m =
     (if m = 2 \<and> is_leap y then 29 else month_lengths ! nat (m - 1))"

definition days_before_month :: "int \<Rightarrow> int \<Rightarrow> int" where
  "days_before_month y m =
     sum_list (take (nat (m - 1)) month_lengths) + (if 2 < m \<and> is_leap y then 1 else 0)"

definition days_before_year :: "int \<Rightarrow> int" where
  "days_before_year y =
     (let p = y - 1 in p * 365 + p div 4 - p div 100 + p div 400)"

definition ymd2ord :: "int \<Rightarrow> int \<Rightarrow> int \<Rightarrow> int" where
  "ymd2ord y m d = days_before_year y + days_before_month y m + d"

definition field :: "string \<Rightarrow> nat \<Rightarrow> nat \<Rightarrow> int option" where
  "field s i n = digits_val (take n (drop i s))"

definition strptime_iso :: "string \<Rightarrow> datetime option" where
  "strptime_iso s =
     (if length s \<noteq> 25 \<or> s ! 4 \<noteq> CHR ''-'' \<or> s ! 7 \<noteq> CHR ''-'' \<or> s ! 10 \<noteq> CHR ''T''
         \<or> s ! 13 \<noteq> CHR '':'' \<or> s ! 16 \<noteq> CHR '':'' \<or> s ! 22 \<noteq> CHR '':''
         \<or> (s ! 19 \<noteq> CHR ''+'' \<and> s ! 19 \<noteq> CHR ''-'')
      then None
      else
        Option.bind (field s 0 4) (\<lambda>y.
        Option.bind (field s 5 2) (\<lambda>m.
        Option.bind (field s 8 2) (\<lambda>d.
        Option.bind (field s 11 2) (\<lambda>hh.
        Option.bind (field s 14 2) (\<lambda>mi.
        Option.bind (field s 17 2) (\<lambda>se.
        Option.bind (field s 20 2) (\<lambda>zh.
        Option.bind (field s 23 2) (\<lambda>zm.
          if 1 \<le> y \<and> 1 \<le> m \<and> m \<le> 12 \<and> 1 \<le> d \<and> d \<le> days_in_month y m
             \<and> hh < 24 \<and> mi < 60 \<and> se < 60 \<and> zh < 24 \<and> zm < 60
          then Some \<lparr>local_us =
                       (((ymd2ord y m d - 1) * 24 + hh) * 3600 + mi * 60 + se) * 1000000,
                     utcoffset =
                       (if s ! 19 = CHR ''-'' then - 1 else 1)
                         * ((zh * 3600 + zm * 60) * 1000000)\<rparr>
          else None)))))))))"

definition float_decimal :: "string \<Rightarrow> rat option" where
  "float_decimal s =
     (let neg = (s \<noteq> [] \<and> hd s = CHR ''-'');
          body = (if neg then tl s else s);
          ip = takeWhile (\<lambda>c. c \<noteq> CHR ''.'') body;
          rest = dropWhile (\<lambda>c. c \<noteq> CHR ''.'') body;
          sgn = (if neg then - 1 else 1)
      in case rest of
           [] \<Rightarrow> map_option (\<lambda>i. sgn * of_int i) (digits_val ip)
         | _ # fp \<Rightarrow>
             Option.bind (digits_val ip) (\<lambda>i.
             Option.bind (digits_val fp) (\<lambda>f.
               Some (sgn * (of_int i + of_int f / 10 ^ length fp)))))"

fun frac_digits :: "nat \<Rightarrow> int \<Rightarrow> int \<Rightarrow> string" where
  "frac_digits 0 r d = []"
| "frac_digits (Suc fuel) r d =
     (if r = 0 then []
      else digit_char (nat (10 * r div d)) # frac_digits fuel (10 * r mod d) d)"

definition decimal_str :: "rat \<Rightarrow> string" where
  "decimal_str q =
     (let (n, d) = quotient_of q;
          a = \<bar>n\<bar>;
          fr = frac_digits 17 (a mod d) d
      in (if n < 0 then ''-'' else '''') @ str_int (a div d) @ ''.''
           @ (if fr = [] then ''0'' else fr))"

definition exact_lib :: "rat pylib" where
  "exact_lib =
     \<lparr>strptime = strptime_iso,
      pyfloat = float_decimal,
      pysum = sum_list,
      truediv = (\<lambda>x n. x / of_int n),
      pystr = decimal_str\<rparr>"

text \<open>A row of the three columns.\<close>

definition mk_row :: "string \<Rightarrow> string \<Rightarrow> string \<Rightarrow> row" where
  "mk_row t a b = [''timestamp'' \<mapsto> CStr t, ''pm2_5'' \<mapsto> CStr a, ''pm10'' \<mapsto> CStr b]"

section \<open>The specification's data model\<close>

text \<open>
  The specification speaks of typed readings, of the bucket of an hour and of the mean of a
  bucket. These definitions follow its words; the theorems compare them with the tasks
  above, which work on rows of strings.
\<close>

record 'f reading =
  r_time :: datetime
  r_pm2_5 :: 'f
  r_pm10 :: 'f

definition parse_row :: "'f pylib \<Rightarrow> row \<Rightarrow> 'f reading option" where
  "parse_row L r =
     (case (row_datetime L r, row_float L ''pm2_5'' r, row_float L ''pm10'' r) of
        (Inr d, Inr a, Inr b) \<Rightarrow> Some \<lparr>r_time = d, r_pm2_5 = a, r_pm10 = b\<rparr>
      | _ \<Rightarrow> None)"

definition spec_bucket :: "'f reading list \<Rightarrow> int \<Rightarrow> 'f reading list" where
  "spec_bucket rs h = filter (\<lambda>x. hour (r_time x) = h) rs"

definition spec_mean :: "'f pylib \<Rightarrow> 'f list \<Rightarrow> 'f" where
  "spec_mean L vs = truediv L (pysum L vs) (int (length vs))"

definition spec_average :: "'f pylib \<Rightarrow> 'f list \<Rightarrow> 'f pyval" where
  "spec_average L vs = (if vs = [] then NO_DATA else PyFloat (spec_mean L vs))"

definition spec_entry :: "'f pylib \<Rightarrow> 'f reading list \<Rightarrow> int \<Rightarrow> 'f hourly_average" where
  "spec_entry L rs h =
     \<lparr>avg_pm2_5 = spec_average L (map r_pm2_5 (spec_bucket rs h)),
      avg_pm10 = spec_average L (map r_pm10 (spec_bucket rs h))\<rparr>"

text \<open>The rows of a window whose timestamps are \<open>ds\<close>, restricted to one hour of the day.\<close>

definition rows_of_hour :: "row list \<Rightarrow> datetime list \<Rightarrow> int \<Rightarrow> row list" where
  "rows_of_hour w ds h = map fst (filter (\<lambda>(r, d). hour d = h) (zip w ds))"

text \<open>The rows whose timestamps \<open>ds\<close> are at or after a point of the UTC time line.\<close>

definition rows_since :: "row list \<Rightarrow> datetime list \<Rightarrow> int \<Rightarrow> row list" where
  "rows_since dat ds t = map fst (filter (\<lambda>(r, d). t \<le> utc_us d) (zip dat ds))"

text \<open>
  A row on which the run aborts, for a given cutoff: its timestamp does not parse, or it is
  at or after the cutoff and one of its two numbers does not parse.
\<close>

definition aborting_row :: "'f pylib \<Rightarrow> datetime \<Rightarrow> row \<Rightarrow> bool" where
  "aborting_row L cutoff r =
     (case row_datetime L r of
        Inl e \<Rightarrow> True
      | Inr d \<Rightarrow>
          datetime_ge d cutoff
          \<and> (isl (row_float L ''pm2_5'' r) \<or> isl (row_float L ''pm10'' r)))"

section \<open>Scenarios\<close>

text \<open>
  The inputs of the specification's scenarios, on the instance \<open>exact_lib\<close>: a window of
  three readings with the run time at hour 16, and a run time whose cutoff is
  \<open>2025-01-01T11:00:00+00:00\<close> with rows just before, at and long before the cutoff.
\<close>

definition scenario_ctx :: task_context where
  "scenario_ctx = \<lparr>ts = ''2025-01-01T16:00:00+00:00'', delay_aq_fetch = False\<rparr>"

definition scenario_window :: "row list" where
  "scenario_window =
     [mk_row ''2025-01-01T15:00:00+00:00'' ''10.0'' ''20.0'',
      mk_row ''2025-01-01T15:30:00+00:00'' ''20.0'' ''30.0'',
      mk_row ''2025-01-01T16:00:00+00:00'' ''5.0'' ''5.0'']"

definition scenario_times :: "datetime list" where
  "scenario_times =
     [\<lparr>local_us = 63871340400000000, utcoffset = 0\<rparr>,
      \<lparr>local_us = 63871342200000000, utcoffset = 0\<rparr>,
      \<lparr>local_us = 63871344000000000, utcoffset = 0\<rparr>]"

definition scenario_readings :: "rat reading list" where
  "scenario_readings =
     [\<lparr>r_time = \<lparr>local_us = 63871340400000000, utcoffset = 0\<rparr>, r_pm2_5 = 10, r_pm10 = 20\<rparr>,
      \<lparr>r_time = \<lparr>local_us = 63871342200000000, utcoffset = 0\<rparr>, r_pm2_5 = 20, r_pm10 = 30\<rparr>,
      \<lparr>r_time = \<lparr>local_us = 63871344000000000, utcoffset = 0\<rparr>, r_pm2_5 = 5, r_pm10 = 5\<rparr>]"

definition cutoff_ctx :: task_context where
  "cutoff_ctx = \<lparr>ts = ''2025-01-02T10:00:00+00:00'', delay_aq_fetch = False\<rparr>"

text \<open>A run time with microseconds, as a manually triggered run has it.\<close>

definition manual_ctx :: task_context where
  "manual_ctx = \<lparr>ts = ''2025-01-02T10:00:00.123456+00:00'', delay_aq_fetch = False\<rparr>"

definition cutoff_run :: datetime where
  "cutoff_run = \<lparr>local_us = 63871408800000000, utcoffset = 0\<rparr>"

definition row_before :: row where
  "row_before = mk_row ''2025-01-01T10:59:59+00:00'' ''1.0'' ''2.0''"

definition row_at :: row where
  "row_at = mk_row ''2025-01-01T11:00:00+00:00'' ''3.0'' ''4.0''"

definition stale_row :: row where
  "stale_row = mk_row ''2024-12-01T00:00:00+00:00'' ''n/a'' ''1.0''"

definition bad_number_row :: row where
  "bad_number_row = mk_row ''2025-01-02T09:00:00+00:00'' ''n/a'' ''1.0''"

definition scenario_report :: "rat report" where
  "scenario_report =
     [(''16'', \<lparr>avg_pm2_5 = PyFloat 5, avg_pm10 = PyFloat 5\<rparr>),
      (''15'', \<lparr>avg_pm2_5 = PyFloat 15, avg_pm10 = PyFloat 25\<rparr>),
      (''14'', \<lparr>avg_pm2_5 = NO_DATA, avg_pm10 = NO_DATA\<rparr>)]"

text \<open>The report of the scenario: hours 16 and 15 have data, the other 22 have none.\<close>

definition full_scenario_report :: "rat report" where
  "full_scenario_report =
     (''16'', \<lparr>avg_pm2_5 = PyFloat 5, avg_pm10 = PyFloat 5\<rparr>)
     # (''15'', \<lparr>avg_pm2_5 = PyFloat 15, avg_pm10 = PyFloat 25\<rparr>)
     # map (\<lambda>i. (str_int ((16 - i) mod 24), \<lparr>avg_pm2_5 = NO_DATA, avg_pm10 = NO_DATA\<rparr>))
         [2..23]"

section \<open>Auxiliary facts\<close>

lemma digit_char_val: "d < 10 \<Longrightarrow> (of_char (digit_char d) :: nat) - 48 = d"
  by (simp add: digit_char_def)

lemma str_nat_decode: "foldl (\<lambda>a c. 10 * a + (of_char c - 48)) (0::nat) (str_nat n) = n"
proof (induction n rule: str_nat.induct)
  case (1 n)
  show ?case
  proof (cases "n < 10")
    case True
    then show ?thesis by (subst str_nat.simps) (simp add: digit_char_val)
  next
    case False
    then have "foldl (\<lambda>a c. 10 * a + (of_char c - 48)) (0::nat) (str_nat (n div 10)) = n div 10"
      using "1" by simp
    with False show ?thesis
      by (subst str_nat.simps) (simp add: digit_char_val)
  qed
qed

lemma str_nat_inj: "str_nat m = str_nat n \<Longrightarrow> m = n"
  by (metis str_nat_decode)

lemma str_int_inj_nonneg: "0 \<le> i \<Longrightarrow> 0 \<le> j \<Longrightarrow> str_int i = str_int j \<Longrightarrow> i = j"
  by (auto simp: str_int_def dest: str_nat_inj)

lemma last_24_hours_range: "set (last_24_hours ch) \<subseteq> {0..23}"
  by (auto simp: last_24_hours_def)

lemma last_24_hours_inj: "inj_on (\<lambda>i. (ch - i) mod 24) {0..23::int}"
proof (rule inj_onI)
  fix x y :: int
  assume "x \<in> {0..23}" "y \<in> {0..23}" "(ch - x) mod 24 = (ch - y) mod 24"
  then have b: "- 23 \<le> y - x" "y - x \<le> 23" and "24 dvd ((ch - x) - (ch - y))"
    by (simp_all add: mod_eq_dvd_iff)
  then have "24 dvd (y - x)" by simp
  then obtain k where k: "y - x = 24 * k" ..
  with b have "k = 0" by linarith
  with k show "x = y" by simp
qed

lemma last_24_hours_distinct: "distinct (last_24_hours ch)"
  unfolding last_24_hours_def
  by (simp add: distinct_map last_24_hours_inj)

lemma last_24_hours_length: "length (last_24_hours ch) = 24"
  by (simp add: last_24_hours_def)

lemma last_24_hours_set: "set (last_24_hours ch) = {0..23}"
proof (rule card_subset_eq)
  show "finite {0..23::int}" by simp
  show "set (last_24_hours ch) \<subseteq> {0..23}" by (rule last_24_hours_range)
  have "card (set (last_24_hours ch)) = 24"
    using last_24_hours_distinct [of ch] last_24_hours_length [of ch]
    by (simp add: distinct_card)
  then show "card (set (last_24_hours ch)) = card {0..23::int}" by simp
qed

lemma filterE_zip:
  "map g w = map Inr ds \<Longrightarrow>
   filterE (\<lambda>r. case g r of Inl e \<Rightarrow> Inl e | Inr d \<Rightarrow> Inr (P d)) w
     = Inr (map fst (filter (\<lambda>(r, d). P d) (zip w ds)))"
proof (induction w arbitrary: ds)
  case Nil
  then show ?case by simp
next
  case (Cons r w)
  then obtain d ds' where ds: "ds = d # ds'" by (cases ds) auto
  with Cons.prems have "g r = Inr d" "map g w = map Inr ds'" by auto
  with Cons.IH [of ds'] ds show ?case by simp
qed

lemma mapE_length: "mapE f xs = Inr ys \<Longrightarrow> length ys = length xs"
  by (induction xs arbitrary: ys) (auto split: sum.splits)

lemma filterE_Inr:
  "filterE p xs = Inr ys \<Longrightarrow> ys = filter (\<lambda>x. p x = Inr True) xs \<and> (\<forall>x\<in>set xs. \<exists>b. p x = Inr b)"
  by (induction xs arbitrary: ys) (auto split: sum.splits if_splits)

lemma bucket_sizes:
  "distinct hs \<Longrightarrow> \<forall>x\<in>set xs. f x \<in> set hs \<Longrightarrow>
   (\<Sum>h\<leftarrow>hs. length (filter (\<lambda>x. f x = h) xs)) = length xs"
proof (induction xs)
  case Nil
  then show ?case by simp
next
  case (Cons x xs)
  have one: "(\<Sum>h\<leftarrow>hs. if f x = h then 1 else 0) = (1::nat)"
    using Cons.prems by (simp add: sum_list_distinct_conv_sum_set)
  have "(\<Sum>h\<leftarrow>hs. length (filter (\<lambda>x. f x = h) (x # xs)))
        = (\<Sum>h\<leftarrow>hs. (if f x = h then 1 else 0) + length (filter (\<lambda>x. f x = h) xs))"
    by (rule arg_cong [where f = sum_list]) (simp)
  also have "\<dots> = (\<Sum>h\<leftarrow>hs. if f x = h then 1 else 0) + (\<Sum>h\<leftarrow>hs. length (filter (\<lambda>x. f x = h) xs))"
    by (simp add: sum_list_addf)
  finally show ?case using one Cons by simp
qed

lemma hour_range: "0 \<le> hour d \<and> hour d \<le> 23"
  by (simp add: hour_def)

lemma zip_parsed:
  "map f w = map Inr ds \<Longrightarrow> (r, d) \<in> set (zip w ds) \<Longrightarrow> f r = Inr d"
proof (induction w arbitrary: ds)
  case Nil
  then show ?case by simp
next
  case (Cons x w)
  then obtain d' ds' where "ds = d' # ds'" by (cases ds) auto
  with Cons show ?case by auto
qed

lemma one_match:
  "distinct hs \<Longrightarrow> a \<in> set hs \<Longrightarrow> length (filter (\<lambda>h. a = h) hs) = 1"
  by (induction hs) (auto simp: filter_empty_conv)

lemma data_for_hour_rows:
  "map (row_datetime L) w = map Inr ds \<Longrightarrow> data_for_hour L w h = Inr (rows_of_hour w ds h)"
  unfolding data_for_hour_def rows_of_hour_def by (rule filterE_zip)

lemma rows_of_hour_length:
  "length w = length ds \<Longrightarrow>
   length (rows_of_hour w ds h) = length (filter (\<lambda>d. hour d = h) ds)"
  unfolding rows_of_hour_def
  by (induction w ds rule: list_induct2) auto

lemma rows_of_hour_mem:
  assumes "map (row_datetime L) w = map Inr ds" "(r, d) \<in> set (zip w ds)"
  shows "(r \<in> set (rows_of_hour w ds h)) = (hour d = h)"
proof
  assume "r \<in> set (rows_of_hour w ds h)"
  then obtain d' where d': "(r, d') \<in> set (zip w ds)" "hour d' = h"
    by (auto simp: rows_of_hour_def)
  from zip_parsed [OF assms(1) d'(1)] zip_parsed [OF assms] have "d' = d" by simp
  with d' show "hour d = h" by simp
next
  assume "hour d = h"
  with assms(2) show "r \<in> set (rows_of_hour w ds h)"
    by (force simp: rows_of_hour_def)
qed

lemma scenario_times_parsed:
  "map (row_datetime exact_lib) scenario_window = map Inr scenario_times"
  by code_simp

lemma row_datetime_no_skip: "row_datetime L r \<noteq> Inl AirflowSkipException"
  by (simp add: row_datetime_def split: option.splits cell.splits)

lemma row_float_no_skip: "row_float L k r \<noteq> Inl AirflowSkipException"
  by (simp add: row_float_def split: option.splits cell.splits)

lemma filterE_Inl: "filterE p xs = Inl e \<Longrightarrow> \<exists>x\<in>set xs. p x = Inl e"
  by (induction xs) (auto split: sum.splits)

lemma mapE_Inl: "mapE f xs = Inl e \<Longrightarrow> \<exists>x\<in>set xs. f x = Inl e"
  by (induction xs) (auto split: sum.splits)

lemma mapE_fails: "x \<in> set xs \<Longrightarrow> isl (f x) \<Longrightarrow> isl (mapE f xs)"
  by (induction xs) (auto split: sum.splits)

lemma data_for_hour_no_skip: "data_for_hour L w h \<noteq> Inl AirflowSkipException"
proof
  assume "data_for_hour L w h = Inl AirflowSkipException"
  then obtain r where "(case row_datetime L r of Inl e \<Rightarrow> Inl e | Inr d \<Rightarrow> Inr (hour d = h))
      = (Inl AirflowSkipException :: exn + bool)"
    unfolding data_for_hour_def by (blast dest: filterE_Inl)
  then show False
    using row_datetime_no_skip [of L r] by (simp split: sum.splits)
qed

lemma hour_entry_no_skip: "hour_entry L w h \<noteq> Inl AirflowSkipException"
  unfolding hour_entry_def
  using data_for_hour_no_skip [of L w h] row_float_no_skip [of L]
  by (auto split: sum.splits dest!: mapE_Inl)

lemma hours_loop_no_skip: "hours_loop L w hs acc \<noteq> Inl AirflowSkipException"
  using hour_entry_no_skip [of L w]
  by (induction hs arbitrary: acc) (auto split: sum.splits)

lemma caluclate_no_skip: "caluclate_avg_aq_per_hour L w ctx \<noteq> Inl AirflowSkipException"
  by (simp add: caluclate_avg_aq_per_hour_def hours_loop_no_skip split: option.splits)

lemma emit_loop_no_skip: "fst (emit_loop L day rep ks sink) \<noteq> Some AirflowSkipException"
  by (induction ks arbitrary: sink) (auto split: option.splits)

lemma extractor_no_skip:
  "get_aq_data_last_day L ctx (Some dat) = Inl e \<Longrightarrow> cutoff_time L ctx = Inr c
   \<Longrightarrow> e \<noteq> AirflowSkipException"
proof
  assume a: "get_aq_data_last_day L ctx (Some dat) = Inl e" "cutoff_time L ctx = Inr c"
    and e: "e = AirflowSkipException"
  then obtain r where "(case row_datetime L r of Inl e \<Rightarrow> Inl e | Inr d \<Rightarrow> Inr (datetime_ge d c))
      = (Inl AirflowSkipException :: exn + bool)"
    unfolding get_aq_data_last_day_def by (auto dest: filterE_Inl)
  then show False
    using row_datetime_no_skip [of L r] by (simp split: sum.splits)
qed

lemma cutoff_time_eq:
  assumes "strptime L (ts ctx) = Some run"
    and "timedelta_hours 23 \<le> local_us run"
    and "local_us run - timedelta_hours 23 < max_ordinal * us_per_day"
  shows "cutoff_time L ctx = Inr (run\<lparr>local_us := local_us run - timedelta_hours 23\<rparr>)"
proof -
  define t where "t = local_us run - timedelta_hours 23"
  have "0 \<le> t" "t < max_ordinal * us_per_day"
    using assms by (simp_all add: t_def)
  moreover have "0 < us_per_day" by (simp add: us_per_day_def us_per_hour_def)
  ultimately have "0 \<le> t div us_per_day" "t div us_per_day < max_ordinal"
  proof -
    assume t: "0 \<le> t" "t < max_ordinal * us_per_day" and d: "0 < us_per_day"
    show "0 \<le> t div us_per_day"
      using t d by (simp add: pos_imp_zdiv_nonneg_iff)
    show "t div us_per_day < max_ordinal"
    proof (rule ccontr)
      assume "\<not> t div us_per_day < max_ordinal"
      then have "max_ordinal * us_per_day \<le> t div us_per_day * us_per_day"
        using d by (simp add: mult_right_mono)
      moreover have "t div us_per_day * us_per_day + t mod us_per_day = t"
        by simp
      moreover have "0 \<le> t mod us_per_day"
        using d by simp
      ultimately show False using t by linarith
    qed
  qed
  then show ?thesis
    using assms(1) by (simp add: cutoff_time_def datetime_sub_def t_def)
qed

section \<open>The window extractor\<close>

text \<open>
  Claim C3. For a run time that parses and lies at least 23 hours after the first instant
  a datetime can hold, and a file whose timestamps all parse, the extractor returns the
  rows whose timestamp is at or after the run time minus 23 hours, in the order of the
  file and with no upper bound on the timestamp. For the run time
  \<open>2025-01-02T10:00:00+00:00\<close> the cutoff is \<open>2025-01-01T11:00:00+00:00\<close>: the row at
  \<open>10:59:59\<close> is dropped and the row at \<open>11:00:00\<close> is kept.
\<close>

theorem window_extractor:
  assumes "strptime L (ts ctx) = Some run"
    and "timedelta_hours 23 \<le> local_us run"
    and "local_us run - timedelta_hours 23 < max_ordinal * us_per_day"
    and "map (row_datetime L) dat = map Inr ds"
  shows "get_aq_data_last_day L ctx (Some dat)
           = Inr (rows_since dat ds (utc_us run - timedelta_hours 23))"
proof -
  let ?c = "run\<lparr>local_us := local_us run - timedelta_hours 23\<rparr>"
  have c: "cutoff_time L ctx = Inr ?c"
    using assms(1-3) by (rule cutoff_time_eq)
  have ge: "datetime_ge d ?c = (utc_us run - timedelta_hours 23 \<le> utc_us d)" for d
    by (auto simp: datetime_ge_def utc_us_def)
  show ?thesis
    unfolding get_aq_data_last_day_def rows_since_def
    using filterE_zip [OF assms(4), of "\<lambda>d. datetime_ge d ?c"]
    by (simp add: c ge)
qed

lemma cutoff_run_parsed: "strptime exact_lib (ts cutoff_ctx) = Some cutoff_run"
  by code_simp

lemma cutoff_rows_parsed:
  "map (row_datetime exact_lib) [row_before, row_at]
     = map Inr [\<lparr>local_us = 63871325999000000, utcoffset = 0\<rparr>,
                \<lparr>local_us = 63871326000000000, utcoffset = 0\<rparr>]"
  by code_simp

lemma cutoff_value:
  "map_option Inr (strptime exact_lib ''2025-01-01T11:00:00+00:00'')
     = Some (cutoff_time exact_lib cutoff_ctx)"
  by code_simp

theorem window_extractor_witness:
  "strptime exact_lib (ts cutoff_ctx) = Some cutoff_run
   \<and> timedelta_hours 23 \<le> local_us cutoff_run
   \<and> local_us cutoff_run - timedelta_hours 23 < max_ordinal * us_per_day
   \<and> map_option Inr (strptime exact_lib ''2025-01-01T11:00:00+00:00'')
        = Some (cutoff_time exact_lib cutoff_ctx)
   \<and> get_aq_data_last_day exact_lib cutoff_ctx (Some [row_before, row_at]) = Inr [row_at]"
proof -
  have lo: "timedelta_hours 23 \<le> local_us cutoff_run"
    by (simp add: timedelta_hours_def us_per_hour_def cutoff_run_def)
  have hi: "local_us cutoff_run - timedelta_hours 23 < max_ordinal * us_per_day"
    by (simp add: timedelta_hours_def us_per_hour_def us_per_day_def max_ordinal_def
        cutoff_run_def)
  have "get_aq_data_last_day exact_lib cutoff_ctx (Some [row_before, row_at]) = Inr [row_at]"
    using window_extractor [OF cutoff_run_parsed lo hi cutoff_rows_parsed]
    by (simp add: rows_since_def utc_us_def timedelta_hours_def us_per_hour_def cutoff_run_def)
  with cutoff_run_parsed lo hi cutoff_value show ?thesis by simp
qed

lemma hours_loop_fails:
  "h \<in> set hs \<Longrightarrow> isl (hour_entry L w h) \<Longrightarrow> isl (hours_loop L w hs acc)"
  by (induction hs arbitrary: acc) (auto split: sum.splits)

lemma hour_entry_fails:
  assumes "r \<in> set w" "row_datetime L r = Inr d"
    and "isl (row_float L ''pm2_5'' r) \<or> isl (row_float L ''pm10'' r)"
  shows "isl (hour_entry L w (hour d))"
proof (cases "data_for_hour L w (hour d)")
  case (Inl e)
  then show ?thesis by (simp add: hour_entry_def)
next
  case (Inr rows)
  then have "rows = filter (\<lambda>x. (case row_datetime L x of Inl e \<Rightarrow> Inl e
                                   | Inr d' \<Rightarrow> Inr (hour d' = hour d)) = Inr True) w"
    unfolding data_for_hour_def by (blast dest: filterE_Inr)
  with assms(1,2) have r: "r \<in> set rows" by simp
  from assms(3) show ?thesis
  proof
    assume "isl (row_float L ''pm2_5'' r)"
    with r have "isl (mapE (row_float L ''pm2_5'') rows)"
      using mapE_fails [of r rows "row_float L ''pm2_5''"] by simp
    with Inr show ?thesis by (auto simp: hour_entry_def split: sum.splits)
  next
    assume "isl (row_float L ''pm10'' r)"
    with r have "isl (mapE (row_float L ''pm10'') rows)"
      using mapE_fails [of r rows "row_float L ''pm10''"] by simp
    with Inr show ?thesis by (auto simp: hour_entry_def split: sum.splits)
  qed
qed

lemma aggregator_fails:
  assumes "strptime L (ts ctx) = Some run" "r \<in> set w" "row_datetime L r = Inr d"
    and "isl (row_float L ''pm2_5'' r) \<or> isl (row_float L ''pm10'' r)"
  shows "isl (caluclate_avg_aq_per_hour L w ctx)"
proof -
  have "hour d \<in> set (last_24_hours (hour run))"
    using hour_range [of d] by (simp add: last_24_hours_set)
  then have "isl (hours_loop L w (last_24_hours (hour run)) [])"
    using hour_entry_fails [OF assms(2-4)] by (rule hours_loop_fails)
  with assms(1) show ?thesis by (simp add: caluclate_avg_aq_per_hour_def)
qed

lemma cutoff_time_run: "cutoff_time L ctx = Inr c \<Longrightarrow> \<exists>run. strptime L (ts ctx) = Some run"
  by (simp add: cutoff_time_def split: option.splits)

section \<open>A missing source file\<close>

text \<open>
  Claim C4, as the code has it. The run time is parsed and the cutoff computed (lines
  52-55) before the file is looked at (line 58). With a run time that parses and a cutoff
  that is a datetime, a run whose source file is absent ends as skipped: only the extractor
  is executed, the aggregator and the emitter are not, and the log is left as it was. The
  skipped outcome is neither success nor failure, and a run ends skipped only when the file
  is absent.
\<close>

theorem missing_source_skips:
  assumes "cutoff_time L ctx = Inr cutoff"
  shows "create_aq_report L ctx None sink
           = \<lparr>executed = [Extractor], ended = Skipped, log_lines = sink\<rparr>
       \<and> Skipped \<noteq> Succeeded \<and> Skipped \<noteq> Failed e
       \<and> (ended (create_aq_report L ctx file sink) = Skipped) = (file = None)"
proof -
  have none: "create_aq_report L ctx None sink
           = \<lparr>executed = [Extractor], ended = Skipped, log_lines = sink\<rparr>" for sink
    using assms by (simp add: create_aq_report_def get_aq_data_last_day_def outcome_of_def)
  have some: "ended (create_aq_report L ctx (Some dat) sink) \<noteq> Skipped" for dat
  proof (cases "get_aq_data_last_day L ctx (Some dat)")
    case (Inl e)
    then have "e \<noteq> AirflowSkipException" using assms by (rule extractor_no_skip)
    with Inl show ?thesis by (simp add: create_aq_report_def outcome_of_def)
  next
    case w: (Inr w)
    show ?thesis
    proof (cases "caluclate_avg_aq_per_hour L w ctx")
      case (Inl e)
      then have "e \<noteq> AirflowSkipException" using caluclate_no_skip [of L w ctx] by auto
      with w Inl show ?thesis by (simp add: create_aq_report_def outcome_of_def)
    next
      case (Inr rep)
      obtain x s where s: "send_aq_report L rep ctx sink = (x, s)" by (cases "send_aq_report L rep ctx sink")
      then have "x \<noteq> Some AirflowSkipException"
        using emit_loop_no_skip [of L "day_of ctx" rep "map fst rep" sink]
        by (auto simp: send_aq_report_def)
      with w Inr s show ?thesis
        by (cases x) (auto simp: create_aq_report_def outcome_of_def)
    qed
  qed
  show ?thesis
    using none some by (cases "file") auto
qed

lemma cutoff_value_at: "cutoff_time exact_lib cutoff_ctx = Inr \<lparr>local_us = 63871326000000000, utcoffset = 0\<rparr>"
  by code_simp

theorem missing_source_skips_witness:
  "cutoff_time exact_lib cutoff_ctx = Inr \<lparr>local_us = 63871326000000000, utcoffset = 0\<rparr>
   \<and> create_aq_report exact_lib cutoff_ctx None [''earlier line'']
        = \<lparr>executed = [Extractor], ended = Skipped, log_lines = [''earlier line'']\<rparr>
   \<and> ended (create_aq_report exact_lib cutoff_ctx (Some []) [''earlier line'']) \<noteq> Skipped"
  using missing_source_skips [OF cutoff_value_at, of "[''earlier line'']" "ValueError" "Some []"]
    cutoff_value_at
  by simp

text \<open>
  Claim C4 as it is written fails: with a run time that \<open>strptime\<close> rejects, here one
  with microseconds, the extractor raises \<open>ValueError\<close> before it looks for the file, and
  the run with an absent file ends as a failure, not as skipped.
\<close>

theorem missing_source_unparsed_ts_counterexample:
  "strptime exact_lib (ts manual_ctx) = None
   \<and> create_aq_report exact_lib manual_ctx None []
       = \<lparr>executed = [Extractor], ended = Failed ValueError, log_lines = []\<rparr>
   \<and> ended (create_aq_report exact_lib manual_ctx None []) \<noteq> Skipped"
  by code_simp

section \<open>Malformed rows\<close>

text \<open>
  Claim C6, as the code has it. With a run time that parses and a file that is present, if
  some row of the file has a timestamp that does not parse, or lies at or after the cutoff
  and has a \<open>pm2_5\<close> or \<open>pm10\<close> value that does not parse, then the run ends as a failure
  (never as skipped or succeeded), the emitter is not executed and the log is left as it
  was. Rows before the cutoff are dropped by the extractor before any number is parsed.
\<close>

theorem malformed_row_aborts:
  assumes "cutoff_time L ctx = Inr cutoff" "r \<in> set dat" "aborting_row L cutoff r"
  shows "\<exists>e. e \<noteq> AirflowSkipException
          \<and> ended (create_aq_report L ctx (Some dat) sink) = Failed e
          \<and> log_lines (create_aq_report L ctx (Some dat) sink) = sink
          \<and> Emitter \<notin> set (executed (create_aq_report L ctx (Some dat) sink))"
proof (cases "get_aq_data_last_day L ctx (Some dat)")
  case (Inl e)
  then have "e \<noteq> AirflowSkipException" using assms(1) by (rule extractor_no_skip)
  with Inl show ?thesis by (simp add: create_aq_report_def outcome_of_def)
next
  case w: (Inr w)
  let ?p = "\<lambda>row. case row_datetime L row of Inl e \<Rightarrow> Inl e
                  | Inr d \<Rightarrow> Inr (datetime_ge d cutoff)"
  from w assms(1) have f: "filterE ?p dat = Inr w"
    by (simp add: get_aq_data_last_day_def)
  then have sel: "w = filter (\<lambda>x. ?p x = Inr True) dat" and ok: "\<forall>x\<in>set dat. \<exists>b. ?p x = Inr b"
    by (blast dest: filterE_Inr)+
  from ok assms(2) obtain d where d: "row_datetime L r = Inr d"
    by (cases "row_datetime L r") force+
  with assms(3) have ge: "datetime_ge d cutoff"
    and bad: "isl (row_float L ''pm2_5'' r) \<or> isl (row_float L ''pm10'' r)"
    by (simp_all add: aborting_row_def)
  from sel assms(2) d ge have "r \<in> set w" by simp
  moreover obtain run where "strptime L (ts ctx) = Some run"
    using cutoff_time_run [OF assms(1)] by blast
  ultimately have "isl (caluclate_avg_aq_per_hour L w ctx)"
    using d bad by (blast intro: aggregator_fails)
  then obtain e where e: "caluclate_avg_aq_per_hour L w ctx = Inl e"
    by (cases "caluclate_avg_aq_per_hour L w ctx") auto
  then have "e \<noteq> AirflowSkipException" using caluclate_no_skip [of L w ctx] by auto
  with w e show ?thesis by (simp add: create_aq_report_def outcome_of_def)
qed

lemma bad_number_row_aborting:
  "aborting_row exact_lib \<lparr>local_us = 63871326000000000, utcoffset = 0\<rparr> bad_number_row"
  by code_simp

theorem malformed_row_aborts_witness:
  "cutoff_time exact_lib cutoff_ctx = Inr \<lparr>local_us = 63871326000000000, utcoffset = 0\<rparr>
   \<and> bad_number_row \<in> set [row_at, bad_number_row]
   \<and> aborting_row exact_lib \<lparr>local_us = 63871326000000000, utcoffset = 0\<rparr> bad_number_row
   \<and> (\<exists>e. e \<noteq> AirflowSkipException
          \<and> ended (create_aq_report exact_lib cutoff_ctx (Some [row_at, bad_number_row]) []) = Failed e
          \<and> log_lines (create_aq_report exact_lib cutoff_ctx (Some [row_at, bad_number_row]) []) = []
          \<and> Emitter \<notin> set (executed (create_aq_report exact_lib cutoff_ctx (Some [row_at, bad_number_row]) [])))"
proof -
  have m: "bad_number_row \<in> set [row_at, bad_number_row]" by simp
  show ?thesis
    using malformed_row_aborts [OF cutoff_value_at m bad_number_row_aborting, of "[]"]
      cutoff_value_at bad_number_row_aborting m
    by blast
qed

text \<open>
  Claim C6 as it is written fails: a row dated long before the cutoff whose \<open>pm2_5\<close> is
  not a number is dropped by the extractor, and the run succeeds with its 24 lines.
\<close>

theorem malformed_stale_row_counterexample:
  "isl (row_float exact_lib ''pm2_5'' stale_row)
   \<and> ended (create_aq_report exact_lib cutoff_ctx (Some [stale_row]) []) = Succeeded
   \<and> length (log_lines (create_aq_report exact_lib cutoff_ctx (Some [stale_row]) [])) = 24"
  by code_simp

lemma update_set: "set (AList.update k v al) \<subseteq> insert (k, v) (set al)"
  by (induction al) auto

lemma hours_loop_entries:
  "hours_loop L w hs acc = Inr rep \<Longrightarrow> h \<in> set hs \<Longrightarrow> \<exists>e. hour_entry L w h = Inr e"
  by (induction hs arbitrary: acc) (auto split: sum.splits)

lemma hours_loop_keys:
  "hours_loop L w hs acc = Inr rep \<Longrightarrow> distinct (map fst acc @ map str_int hs)
   \<Longrightarrow> map fst rep = map fst acc @ map str_int hs"
proof (induction hs arbitrary: acc)
  case Nil
  then show ?case by simp
next
  case (Cons h hs)
  from Cons.prems(1) obtain e where e: "hour_entry L w h = Inr e"
    and loop: "hours_loop L w hs (AList.update (str_int h) e acc) = Inr rep"
    by (auto split: sum.splits)
  from Cons.prems(2) have new: "str_int h \<notin> set (map fst acc)" by auto
  then have keys: "map fst (AList.update (str_int h) e acc) = map fst acc @ [str_int h]"
    by (simp add: update_keys)
  with Cons.prems(2) have "distinct (map fst (AList.update (str_int h) e acc) @ map str_int hs)"
    by auto
  from Cons.IH [OF loop this] keys show ?case by simp
qed

lemma hours_loop_other:
  "hours_loop L w hs acc = Inr rep \<Longrightarrow> k \<notin> str_int ` set hs \<Longrightarrow> map_of rep k = map_of acc k"
proof (induction hs arbitrary: acc)
  case Nil
  then show ?case by simp
next
  case (Cons h hs)
  from Cons.prems(1) obtain e where
    loop: "hours_loop L w hs (AList.update (str_int h) e acc) = Inr rep"
    by (auto split: sum.splits)
  from Cons.prems(2) have "k \<notin> str_int ` set hs" "k \<noteq> str_int h" by auto
  with Cons.IH [OF loop] show ?case by (simp add: update_conv')
qed

lemma hours_loop_lookup:
  "hours_loop L w hs acc = Inr rep \<Longrightarrow> distinct (map str_int hs) \<Longrightarrow> h \<in> set hs
   \<Longrightarrow> hour_entry L w h = Inr e \<Longrightarrow> map_of rep (str_int h) = Some e"
proof (induction hs arbitrary: acc)
  case Nil
  then show ?case by simp
next
  case (Cons a hs)
  from Cons.prems(1) obtain e' where e': "hour_entry L w a = Inr e'"
    and loop: "hours_loop L w hs (AList.update (str_int a) e' acc) = Inr rep"
    by (auto split: sum.splits)
  show ?case
  proof (cases "h \<in> set hs")
    case True
    with Cons.IH [OF loop] Cons.prems show ?thesis by simp
  next
    case False
    with Cons.prems have "h = a" "str_int a \<notin> str_int ` set hs" by auto
    with hours_loop_other [OF loop] e' Cons.prems(4) show ?thesis
      by (simp add: update_conv')
  qed
qed

lemma hours_loop_total:
  "\<forall>h\<in>set hs. \<exists>e. hour_entry L w h = Inr e \<Longrightarrow> \<exists>rep. hours_loop L w hs acc = Inr rep"
  by (induction hs arbitrary: acc) auto

lemma hours_loop_values:
  "hours_loop L w hs acc = Inr rep \<Longrightarrow> (k, e) \<in> set rep
   \<Longrightarrow> (k, e) \<in> set acc \<or> (\<exists>h\<in>set hs. hour_entry L w h = Inr e)"
proof (induction hs arbitrary: acc)
  case Nil
  then show ?case by simp
next
  case (Cons a hs)
  from Cons.prems(1) obtain e' where e': "hour_entry L w a = Inr e'"
    and loop: "hours_loop L w hs (AList.update (str_int a) e' acc) = Inr rep"
    by (auto split: sum.splits)
  from Cons.IH [OF loop Cons.prems(2)] e' update_set [of "str_int a" e' acc]
  show ?case by auto
qed

lemma target_keys_distinct: "distinct (map str_int (last_24_hours ch))"
proof -
  have "inj_on str_int (set (last_24_hours ch))"
    by (rule inj_onI) (simp add: last_24_hours_set str_int_inj_nonneg)
  then show ?thesis
    by (simp add: distinct_map last_24_hours_distinct)
qed

lemma report_keys:
  assumes "strptime L (ts ctx) = Some run" "caluclate_avg_aq_per_hour L w ctx = Inr rep"
  shows "map fst rep = map str_int (last_24_hours (hour run))"
  using assms hours_loop_keys [of L w "last_24_hours (hour run)" "[]" rep]
  by (simp add: caluclate_avg_aq_per_hour_def target_keys_distinct)

lemma caluclate_run:
  "caluclate_avg_aq_per_hour L w ctx = Inr rep \<Longrightarrow> \<exists>run. strptime L (ts ctx) = Some run"
  by (simp add: caluclate_avg_aq_per_hour_def split: option.splits)

lemma hour_entry_shape:
  assumes "hour_entry L w h = Inr e"
  shows "(\<exists>x y. avg_pm2_5 e = PyFloat x \<and> avg_pm10 e = PyFloat y)
       \<or> (avg_pm2_5 e = NO_DATA \<and> avg_pm10 e = NO_DATA)"
proof -
  from assms obtain rows a b where "mapE (row_float L ''pm2_5'') rows = Inr a"
    "mapE (row_float L ''pm10'') rows = Inr b"
    and e: "e = \<lparr>avg_pm2_5 = (if length a \<noteq> 0
                  then PyFloat (truediv L (pysum L a) (int (length a))) else NO_DATA),
               avg_pm10 = (if length b \<noteq> 0
                  then PyFloat (truediv L (pysum L b) (int (length b))) else NO_DATA)\<rparr>"
    unfolding hour_entry_def by (auto split: sum.splits)
  then have "length a = length b" by (simp add: mapE_length)
  with e show ?thesis by auto
qed

section \<open>Both averages or neither\<close>

text \<open>
  Claim C9. In every entry of every report the aggregator returns, \<open>avg_pm2_5\<close> is the
  \<open>NO DATA\<close> marker exactly when \<open>avg_pm10\<close> is: the two lists of values come from the same
  rows of the bucket, so either both averages are floats or both are the marker.
\<close>

theorem averages_both_or_neither:
  assumes "caluclate_avg_aq_per_hour L w ctx = Inr rep" "(k, e) \<in> set rep"
  shows "(avg_pm2_5 e = NO_DATA) = (avg_pm10 e = NO_DATA)
       \<and> ((\<exists>x y. avg_pm2_5 e = PyFloat x \<and> avg_pm10 e = PyFloat y)
           \<or> (avg_pm2_5 e = NO_DATA \<and> avg_pm10 e = NO_DATA))"
proof -
  from assms(1) obtain run where
    "hours_loop L w (last_24_hours (hour run)) [] = Inr rep"
    by (auto simp: caluclate_avg_aq_per_hour_def split: option.splits)
  from hours_loop_values [OF this assms(2)] obtain h where "hour_entry L w h = Inr e"
    by auto
  from hour_entry_shape [OF this] show ?thesis
    by (auto simp: NO_DATA_def)
qed

lemma scenario_report_value:
  "caluclate_avg_aq_per_hour exact_lib scenario_window scenario_ctx = Inr full_scenario_report"
  by code_simp

theorem averages_both_or_neither_witness:
  "caluclate_avg_aq_per_hour exact_lib scenario_window scenario_ctx = Inr full_scenario_report
   \<and> (''15'', \<lparr>avg_pm2_5 = PyFloat 15, avg_pm10 = PyFloat 25\<rparr>) \<in> set full_scenario_report
   \<and> ((PyFloat 15 :: rat pyval) = NO_DATA) = ((PyFloat 25 :: rat pyval) = NO_DATA)"
proof -
  have m: "(''15'', \<lparr>avg_pm2_5 = PyFloat 15, avg_pm10 = PyFloat 25\<rparr>) \<in> set full_scenario_report"
    by (simp add: full_scenario_report_def)
  show ?thesis
    using averages_both_or_neither [OF scenario_report_value m] scenario_report_value m
    by simp
qed

lemma parse_row_Some:
  "parse_row L r = Some x \<Longrightarrow>
   row_datetime L r = Inr (r_time x) \<and> row_float L ''pm2_5'' r = Inr (r_pm2_5 x)
   \<and> row_float L ''pm10'' r = Inr (r_pm10 x)"
  by (auto simp: parse_row_def split: sum.splits)

lemma parsed_times:
  "map (parse_row L) w = map Some rs \<Longrightarrow> map (row_datetime L) w = map Inr (map r_time rs)"
proof (induction w arbitrary: rs)
  case Nil
  then show ?case by simp
next
  case (Cons r w)
  then obtain x rs' where "rs = x # rs'" by (cases rs) auto
  with Cons show ?case by (auto dest: parse_row_Some)
qed

lemma bucket_floats:
  "map (parse_row L) w = map Some rs \<Longrightarrow>
   mapE (row_float L ''pm2_5'') (rows_of_hour w (map r_time rs) h)
     = Inr (map r_pm2_5 (spec_bucket rs h))
   \<and> mapE (row_float L ''pm10'') (rows_of_hour w (map r_time rs) h)
     = Inr (map r_pm10 (spec_bucket rs h))"
proof (induction w arbitrary: rs)
  case Nil
  then show ?case by (simp add: rows_of_hour_def spec_bucket_def)
next
  case (Cons r w)
  then obtain x rs' where rs: "rs = x # rs'" by (cases rs) auto
  with Cons.prems have x: "parse_row L r = Some x" and rest: "map (parse_row L) w = map Some rs'"
    by auto
  from Cons.IH [OF rest] parse_row_Some [OF x] rs show ?case
    by (simp add: rows_of_hour_def spec_bucket_def)
qed

lemma hour_entry_parsed:
  assumes "map (parse_row L) w = map Some rs"
  shows "hour_entry L w h = Inr (spec_entry L rs h)"
  using bucket_floats [OF assms, of h]
  by (simp add: hour_entry_def data_for_hour_rows [OF parsed_times [OF assms]]
      spec_entry_def spec_average_def spec_mean_def)

lemma caluclate_parsed:
  assumes "strptime L (ts ctx) = Some run" "map (parse_row L) w = map Some rs"
  shows "\<exists>rep. caluclate_avg_aq_per_hour L w ctx = Inr rep"
  using assms(1) hours_loop_total [of "last_24_hours (hour run)" L w "[]"]
  by (simp add: caluclate_avg_aq_per_hour_def hour_entry_parsed [OF assms(2)])

lemma report_lookup:
  assumes "strptime L (ts ctx) = Some run" "caluclate_avg_aq_per_hour L w ctx = Inr rep"
    and "h \<in> {0..23}" "hour_entry L w h = Inr e"
  shows "map_of rep (str_int h) = Some e"
proof -
  from assms(1,2) have "hours_loop L w (last_24_hours (hour run)) [] = Inr rep"
    by (simp add: caluclate_avg_aq_per_hour_def)
  moreover from assms(3) have "h \<in> set (last_24_hours (hour run))"
    by (simp add: last_24_hours_set)
  ultimately show ?thesis
    using hours_loop_lookup [of L w "last_24_hours (hour run)" "[]" rep h e]
      target_keys_distinct [of "hour run"] assms(4)
    by simp
qed

lemma report_entry:
  assumes "strptime L (ts ctx) = Some run" "caluclate_avg_aq_per_hour L w ctx = Inr rep"
    and "h \<in> {0..23}"
  shows "\<exists>e. hour_entry L w h = Inr e"
proof -
  from assms(1,2) have "hours_loop L w (last_24_hours (hour run)) [] = Inr rep"
    by (simp add: caluclate_avg_aq_per_hour_def)
  moreover from assms(3) have "h \<in> set (last_24_hours (hour run))"
    by (simp add: last_24_hours_set)
  ultimately show ?thesis by (rule hours_loop_entries)
qed

section \<open>The hourly averages\<close>

text \<open>
  Claim C2. For a run time that parses and a window whose rows parse to the readings \<open>rs\<close>,
  the aggregator returns a report in which, for every hour \<open>h\<close> from 0 to 23, the entry
  under the key \<open>str(h)\<close> is computed from the bucket of the readings whose hour of the day
  is \<open>h\<close>, whatever their date: both averages are the \<open>NO DATA\<close> marker when the bucket is
  empty, and otherwise each is the sum of the bucket's values of its measure divided by
  their number. In the scenario of three readings at 15:00, 15:30 and 16:00, hour 15 has
  the averages 15 and 25, hour 16 has 5 and 5, and the other 22 hours have no data.
\<close>

theorem hourly_averages:
  assumes "strptime L (ts ctx) = Some run" "map (parse_row L) w = map Some rs"
  shows "\<exists>rep. caluclate_avg_aq_per_hour L w ctx = Inr rep
    \<and> (\<forall>h\<in>{0..23}. \<exists>e. map_of rep (str_int h) = Some e
         \<and> (spec_bucket rs h = [] \<longrightarrow> avg_pm2_5 e = NO_DATA \<and> avg_pm10 e = NO_DATA)
         \<and> (spec_bucket rs h \<noteq> [] \<longrightarrow>
              avg_pm2_5 e = PyFloat (truediv L (pysum L (map r_pm2_5 (spec_bucket rs h)))
                                       (int (length (spec_bucket rs h))))
              \<and> avg_pm10 e = PyFloat (truediv L (pysum L (map r_pm10 (spec_bucket rs h)))
                                        (int (length (spec_bucket rs h))))))"
proof -
  from caluclate_parsed [OF assms] obtain rep where
    rep: "caluclate_avg_aq_per_hour L w ctx = Inr rep" ..
  have "map_of rep (str_int h) = Some (spec_entry L rs h)" if "h \<in> {0..23}" for h
    using assms(1) rep that hour_entry_parsed [OF assms(2)] by (rule report_lookup)
  then have "\<forall>h\<in>{0..23}. \<exists>e. map_of rep (str_int h) = Some e
         \<and> (spec_bucket rs h = [] \<longrightarrow> avg_pm2_5 e = NO_DATA \<and> avg_pm10 e = NO_DATA)
         \<and> (spec_bucket rs h \<noteq> [] \<longrightarrow>
              avg_pm2_5 e = PyFloat (truediv L (pysum L (map r_pm2_5 (spec_bucket rs h)))
                                       (int (length (spec_bucket rs h))))
              \<and> avg_pm10 e = PyFloat (truediv L (pysum L (map r_pm10 (spec_bucket rs h)))
                                        (int (length (spec_bucket rs h)))))"
    by (simp add: spec_entry_def spec_average_def spec_mean_def)
  with rep show ?thesis by blast
qed

lemma scenario_run_parsed:
  "strptime exact_lib (ts scenario_ctx) = Some \<lparr>local_us = 63871344000000000, utcoffset = 0\<rparr>"
  by code_simp

lemma scenario_readings_parsed:
  "map (parse_row exact_lib) scenario_window = map Some scenario_readings"
  by code_simp

lemma scenario_buckets:
  "spec_bucket scenario_readings 15
     = [\<lparr>r_time = \<lparr>local_us = 63871340400000000, utcoffset = 0\<rparr>, r_pm2_5 = 10, r_pm10 = 20\<rparr>,
        \<lparr>r_time = \<lparr>local_us = 63871342200000000, utcoffset = 0\<rparr>, r_pm2_5 = 20, r_pm10 = 30\<rparr>]"
  "spec_bucket scenario_readings 16
     = [\<lparr>r_time = \<lparr>local_us = 63871344000000000, utcoffset = 0\<rparr>, r_pm2_5 = 5, r_pm10 = 5\<rparr>]"
  "h \<noteq> 15 \<Longrightarrow> h \<noteq> 16 \<Longrightarrow> spec_bucket scenario_readings h = []"
  by (auto simp: spec_bucket_def scenario_readings_def hour_def us_per_hour_def)

lemma scenario_keys: "str_int 15 = ''15''" "str_int 16 = ''16''"
  by code_simp+

theorem hourly_averages_witness:
  "strptime exact_lib (ts scenario_ctx) = Some \<lparr>local_us = 63871344000000000, utcoffset = 0\<rparr>
   \<and> map (parse_row exact_lib) scenario_window = map Some scenario_readings
   \<and> (\<exists>rep. caluclate_avg_aq_per_hour exact_lib scenario_window scenario_ctx = Inr rep
        \<and> map_of rep ''15'' = Some \<lparr>avg_pm2_5 = PyFloat 15, avg_pm10 = PyFloat 25\<rparr>
        \<and> map_of rep ''16'' = Some \<lparr>avg_pm2_5 = PyFloat 5, avg_pm10 = PyFloat 5\<rparr>
        \<and> list_all (\<lambda>h. map_of rep (str_int h) = Some \<lparr>avg_pm2_5 = NO_DATA, avg_pm10 = NO_DATA\<rparr>)
             ([0..14] @ [17..23]))"
proof -
  from hourly_averages [OF scenario_run_parsed scenario_readings_parsed]
  obtain rep where rep: "caluclate_avg_aq_per_hour exact_lib scenario_window scenario_ctx = Inr rep"
    and avg: "\<And>h. h \<in> {0..23} \<Longrightarrow> \<exists>e. map_of rep (str_int h) = Some e
         \<and> (spec_bucket scenario_readings h = [] \<longrightarrow> avg_pm2_5 e = NO_DATA \<and> avg_pm10 e = NO_DATA)
         \<and> (spec_bucket scenario_readings h \<noteq> [] \<longrightarrow>
              avg_pm2_5 e = PyFloat (truediv exact_lib
                  (pysum exact_lib (map r_pm2_5 (spec_bucket scenario_readings h)))
                  (int (length (spec_bucket scenario_readings h))))
              \<and> avg_pm10 e = PyFloat (truediv exact_lib
                  (pysum exact_lib (map r_pm10 (spec_bucket scenario_readings h)))
                  (int (length (spec_bucket scenario_readings h)))))"
    by blast
  from avg [of 15] obtain e15 where "map_of rep (str_int 15) = Some e15"
    "avg_pm2_5 e15 = PyFloat 15" "avg_pm10 e15 = PyFloat 25"
    by (auto simp: scenario_buckets exact_lib_def)
  then have h15: "map_of rep ''15'' = Some \<lparr>avg_pm2_5 = PyFloat 15, avg_pm10 = PyFloat 25\<rparr>"
    by (cases e15) (simp add: scenario_keys)
  from avg [of 16] obtain e16 where "map_of rep (str_int 16) = Some e16"
    "avg_pm2_5 e16 = PyFloat 5" "avg_pm10 e16 = PyFloat 5"
    by (auto simp: scenario_buckets exact_lib_def)
  then have h16: "map_of rep ''16'' = Some \<lparr>avg_pm2_5 = PyFloat 5, avg_pm10 = PyFloat 5\<rparr>"
    by (cases e16) (simp add: scenario_keys)
  have "map_of rep (str_int h) = Some \<lparr>avg_pm2_5 = NO_DATA, avg_pm10 = NO_DATA\<rparr>"
    if "h \<in> {0..23}" "h \<noteq> 15" "h \<noteq> 16" for h
  proof -
    from avg [OF that(1)] that(2,3) obtain e where "map_of rep (str_int h) = Some e"
      "avg_pm2_5 e = NO_DATA" "avg_pm10 e = NO_DATA"
      by (auto simp: scenario_buckets)
    then show ?thesis by (cases e) simp
  qed
  then have rest: "list_all (\<lambda>h. map_of rep (str_int h)
                     = Some \<lparr>avg_pm2_5 = NO_DATA, avg_pm10 = NO_DATA\<rparr>) ([0..14] @ [17..23])"
    by (auto simp: list_all_iff)
  from rep h15 h16 rest scenario_run_parsed scenario_readings_parsed show ?thesis by blast
qed

lemma hour_entry_empty:
  "data_for_hour L w h = Inr [] \<Longrightarrow>
   hour_entry L w h = Inr \<lparr>avg_pm2_5 = NO_DATA, avg_pm10 = NO_DATA\<rparr>"
  by (simp add: hour_entry_def)

section \<open>The report has one entry per hour of the day\<close>

text \<open>
  Claim C1. Whenever the aggregator returns a report, for whatever run time and window, the
  report has exactly 24 entries, its keys are pairwise distinct and are exactly the texts
  of the hours 0 to 23, and every hour has an entry; an hour for which no row of the window
  is selected has the entry with the \<open>NO DATA\<close> marker twice rather than no entry. The
  aggregator does return a report for every run time that parses and every window whose
  rows parse, the empty window included.
\<close>

theorem report_has_24_entries:
  "(caluclate_avg_aq_per_hour L w ctx = Inr rep \<longrightarrow>
      length rep = 24 \<and> distinct (map fst rep) \<and> set (map fst rep) = str_int ` {0..23}
      \<and> (\<forall>h\<in>{0..23}. \<exists>e. map_of rep (str_int h) = Some e
            \<and> (data_for_hour L w h = Inr [] \<longrightarrow>
                 e = \<lparr>avg_pm2_5 = NO_DATA, avg_pm10 = NO_DATA\<rparr>)))
   \<and> (strptime L (ts ctx) = Some run \<longrightarrow> map (parse_row L) w = map Some rs \<longrightarrow>
        (\<exists>rep. caluclate_avg_aq_per_hour L w ctx = Inr rep))
   \<and> (strptime L (ts ctx) = Some run \<longrightarrow>
        (\<exists>rep. caluclate_avg_aq_per_hour L [] ctx = Inr rep))"
proof (intro conjI impI)
  assume rep: "caluclate_avg_aq_per_hour L w ctx = Inr rep"
  then obtain run' where run': "strptime L (ts ctx) = Some run'"
    by (blast dest: caluclate_run)
  have keys: "map fst rep = map str_int (last_24_hours (hour run'))"
    using run' rep by (rule report_keys)
  have "length (map fst rep) = 24"
    unfolding keys by (simp add: last_24_hours_length)
  then show "length rep = 24" by simp
  show "distinct (map fst rep)"
    unfolding keys by (rule target_keys_distinct)
  show "set (map fst rep) = str_int ` {0..23}"
    unfolding keys by (simp add: last_24_hours_set)
  show "\<forall>h\<in>{0..23}. \<exists>e. map_of rep (str_int h) = Some e
            \<and> (data_for_hour L w h = Inr [] \<longrightarrow>
                 e = \<lparr>avg_pm2_5 = NO_DATA, avg_pm10 = NO_DATA\<rparr>)"
  proof
    fix h :: int
    assume h: "h \<in> {0..23}"
    from report_entry [OF run' rep h] obtain e where e: "hour_entry L w h = Inr e" ..
    from report_lookup [OF run' rep h e] e hour_entry_empty [of L w h]
    show "\<exists>e. map_of rep (str_int h) = Some e
            \<and> (data_for_hour L w h = Inr [] \<longrightarrow>
                 e = \<lparr>avg_pm2_5 = NO_DATA, avg_pm10 = NO_DATA\<rparr>)"
      by auto
  qed
next
  assume "strptime L (ts ctx) = Some run" "map (parse_row L) w = map Some rs"
  then show "\<exists>rep. caluclate_avg_aq_per_hour L w ctx = Inr rep"
    by (rule caluclate_parsed)
next
  assume "strptime L (ts ctx) = Some run"
  then show "\<exists>rep. caluclate_avg_aq_per_hour L [] ctx = Inr rep"
    using caluclate_parsed [of L ctx run "[]" "[]"] by simp
qed

lemma empty_bucket_14: "data_for_hour exact_lib scenario_window 14 = Inr []"
  using data_for_hour_rows [OF scenario_times_parsed, of 14]
  by (simp add: rows_of_hour_def scenario_times_def scenario_window_def hour_def
      us_per_hour_def)

lemma key_14: "str_int 14 = ''14''"
  by code_simp

theorem report_has_24_entries_witness:
  "caluclate_avg_aq_per_hour exact_lib scenario_window scenario_ctx = Inr full_scenario_report
   \<and> strptime exact_lib (ts scenario_ctx) = Some \<lparr>local_us = 63871344000000000, utcoffset = 0\<rparr>
   \<and> map (parse_row exact_lib) scenario_window = map Some scenario_readings
   \<and> (14::int) \<in> {0..23} \<and> data_for_hour exact_lib scenario_window 14 = Inr []
   \<and> length full_scenario_report = 24 \<and> distinct (map fst full_scenario_report)
   \<and> set (map fst full_scenario_report) = str_int ` {0..23}
   \<and> map_of full_scenario_report ''14'' = Some \<lparr>avg_pm2_5 = NO_DATA, avg_pm10 = NO_DATA\<rparr>
   \<and> (\<exists>rep. caluclate_avg_aq_per_hour exact_lib [] scenario_ctx = Inr rep)"
proof -
  note t = report_has_24_entries [of exact_lib scenario_window scenario_ctx full_scenario_report
      "\<lparr>local_us = 63871344000000000, utcoffset = 0\<rparr>" scenario_readings]
  from t scenario_report_value have
    a: "length full_scenario_report = 24" "distinct (map fst full_scenario_report)"
       "set (map fst full_scenario_report) = str_int ` {0..23}"
    and b: "\<forall>h\<in>{0..23}. \<exists>e. map_of full_scenario_report (str_int h) = Some e
            \<and> (data_for_hour exact_lib scenario_window h = Inr [] \<longrightarrow>
                 e = \<lparr>avg_pm2_5 = NO_DATA, avg_pm10 = NO_DATA\<rparr>)"
    by blast+
  from b empty_bucket_14 have
    c: "map_of full_scenario_report ''14'' = Some \<lparr>avg_pm2_5 = NO_DATA, avg_pm10 = NO_DATA\<rparr>"
    by (force simp: key_14 [symmetric])
  from t scenario_run_parsed have
    d: "\<exists>rep. caluclate_avg_aq_per_hour exact_lib [] scenario_ctx = Inr rep"
    by blast
  from a c d scenario_report_value scenario_run_parsed scenario_readings_parsed empty_bucket_14
  show ?thesis by simp
qed

lemma emit_loop_lines:
  "\<forall>(k, e)\<in>set xs. map_of rep k = Some e \<Longrightarrow>
   emit_loop L day rep (map fst xs) sink
     = (None, sink @ map (\<lambda>(k, e). report_line L day k e) xs)"
  by (induction xs arbitrary: sink) auto

lemma send_lines:
  "distinct (map fst rep) \<Longrightarrow>
   send_aq_report L rep ctx sink
     = (None, sink @ map (\<lambda>(k, e). report_line L (day_of ctx) k e) rep)"
  unfolding send_aq_report_def
  by (rule emit_loop_lines) auto

lemma scenario_day: "day_of scenario_ctx = ''2025-01-01''"
  by code_simp

section \<open>The emitted lines\<close>

text \<open>
  Claim C7. For every report (a dict, so with each key once), the emitter adds to the log
  exactly one line per entry, in the order of the report, and raises nothing. The line of
  an entry is \<open>Day <date> Hour <key>: PM2.5: <avg_pm2_5>, PM10: <avg_pm10>\<close>, where the date
  is the text of \<open>ts\<close> before its first \<open>T\<close>, a float is rendered by \<open>str\<close> and the marker
  of an empty bucket is rendered as the text \<open>NO DATA\<close>.
\<close>

theorem emitter_lines:
  assumes "distinct (map fst rep)"
  shows "send_aq_report L rep ctx sink
           = (None, sink @ map (\<lambda>(k, e). ''Day '' @ day_of ctx @ '' Hour '' @ k @ '': PM2.5: ''
                                   @ fmt L (avg_pm2_5 e) @ '', PM10: '' @ fmt L (avg_pm10 e)) rep)
       \<and> length (snd (send_aq_report L rep ctx sink)) = length sink + length rep
       \<and> fmt L (PyFloat x) = pystr L x \<and> fmt L NO_DATA = ''NO DATA''
       \<and> day_of ctx = takeWhile (\<lambda>c. c \<noteq> CHR ''T'') (ts ctx)"
  using send_lines [OF assms, of L ctx sink]
  by (simp add: report_line_def NO_DATA_def day_of_def)

lemma scenario_lines:
  "map (\<lambda>(k, e). ''Day '' @ ''2025-01-01'' @ '' Hour '' @ k @ '': PM2.5: ''
                   @ fmt exact_lib (avg_pm2_5 e) @ '', PM10: '' @ fmt exact_lib (avg_pm10 e))
       scenario_report
     = [''Day 2025-01-01 Hour 16: PM2.5: 5.0, PM10: 5.0'',
        ''Day 2025-01-01 Hour 15: PM2.5: 15.0, PM10: 25.0'',
        ''Day 2025-01-01 Hour 14: PM2.5: NO DATA, PM10: NO DATA'']"
  by code_simp

theorem emitter_lines_witness:
  "distinct (map fst scenario_report)
   \<and> send_aq_report exact_lib scenario_report scenario_ctx []
       = (None, [''Day 2025-01-01 Hour 16: PM2.5: 5.0, PM10: 5.0'',
                 ''Day 2025-01-01 Hour 15: PM2.5: 15.0, PM10: 25.0'',
                 ''Day 2025-01-01 Hour 14: PM2.5: NO DATA, PM10: NO DATA''])"
proof -
  have d: "distinct (map fst scenario_report)"
    by (simp add: scenario_report_def)
  show ?thesis
    using emitter_lines [OF d, of exact_lib scenario_ctx "[]"] d
    by (simp only: scenario_day scenario_lines append_Nil simp_thms)
qed

section \<open>The order of the report\<close>

text \<open>
  Claim C5. The keys of a report the aggregator returns are, in order, the texts of the
  hours \<open>(current_hour - i) mod 24\<close> for \<open>i\<close> from 0 to 23, where \<open>current_hour\<close> is the hour of
  the run time: the current hour comes first. The emitter adds one line per entry to the
  log in this same order.
\<close>

theorem report_order:
  assumes "strptime L (ts ctx) = Some run" "caluclate_avg_aq_per_hour L w ctx = Inr rep"
  shows "map fst rep = map (\<lambda>i. str_int ((hour run - i) mod 24)) [0..23]
       \<and> fst (hd rep) = str_int (hour run)
       \<and> send_aq_report L rep ctx sink
           = (None, sink @ map (\<lambda>(k, e). report_line L (day_of ctx) k e) rep)"
proof -
  have keys: "map fst rep = map str_int (last_24_hours (hour run))"
    using assms by (rule report_keys)
  then have order: "map fst rep = map (\<lambda>i. str_int ((hour run - i) mod 24)) [0..23]"
    by (simp add: last_24_hours_def comp_def)
  have "[0..23::int] = 0 # [1..23]" by (simp add: upto_rec1)
  with order have "map fst rep = str_int (hour run mod 24)
      # map (\<lambda>i. str_int ((hour run - i) mod 24)) [1..23]"
    by simp
  moreover have "hour run mod 24 = hour run"
    using hour_range [of run] by simp
  ultimately have first: "fst (hd rep) = str_int (hour run)"
    by (cases rep) auto
  have "distinct (map fst rep)"
    unfolding keys by (rule target_keys_distinct)
  then have "send_aq_report L rep ctx sink
           = (None, sink @ map (\<lambda>(k, e). report_line L (day_of ctx) k e) rep)"
    by (rule send_lines)
  with order first show ?thesis by simp
qed

lemma scenario_key_order:
  "map (\<lambda>i. str_int ((hour \<lparr>local_us = 63871344000000000, utcoffset = 0\<rparr> - i) mod 24)) [0..23]
     = [''16'', ''15'', ''14'', ''13'', ''12'', ''11'', ''10'', ''9'', ''8'', ''7'', ''6'', ''5'',
        ''4'', ''3'', ''2'', ''1'', ''0'', ''23'', ''22'', ''21'', ''20'', ''19'', ''18'', ''17'']"
  by code_simp

lemma scenario_first_lines:
  "take 3 (map (\<lambda>(k, e). report_line exact_lib (day_of scenario_ctx) k e) full_scenario_report)
     = [''Day 2025-01-01 Hour 16: PM2.5: 5.0, PM10: 5.0'',
        ''Day 2025-01-01 Hour 15: PM2.5: 15.0, PM10: 25.0'',
        ''Day 2025-01-01 Hour 14: PM2.5: NO DATA, PM10: NO DATA'']"
  by code_simp

theorem report_order_witness:
  "strptime exact_lib (ts scenario_ctx) = Some \<lparr>local_us = 63871344000000000, utcoffset = 0\<rparr>
   \<and> caluclate_avg_aq_per_hour exact_lib scenario_window scenario_ctx = Inr full_scenario_report
   \<and> map fst full_scenario_report
       = [''16'', ''15'', ''14'', ''13'', ''12'', ''11'', ''10'', ''9'', ''8'', ''7'', ''6'', ''5'',
          ''4'', ''3'', ''2'', ''1'', ''0'', ''23'', ''22'', ''21'', ''20'', ''19'', ''18'', ''17'']
   \<and> fst (send_aq_report exact_lib full_scenario_report scenario_ctx []) = None
   \<and> take 3 (snd (send_aq_report exact_lib full_scenario_report scenario_ctx []))
       = [''Day 2025-01-01 Hour 16: PM2.5: 5.0, PM10: 5.0'',
          ''Day 2025-01-01 Hour 15: PM2.5: 15.0, PM10: 25.0'',
          ''Day 2025-01-01 Hour 14: PM2.5: NO DATA, PM10: NO DATA'']
   \<and> length (snd (send_aq_report exact_lib full_scenario_report scenario_ctx [])) = 24"
proof -
  have len: "length full_scenario_report = 24"
    by (simp add: full_scenario_report_def)
  show ?thesis
    using report_order [OF scenario_run_parsed scenario_report_value, of "[]"]
      scenario_run_parsed scenario_report_value
    by (simp add: scenario_key_order scenario_first_lines len)
qed

lemma spec_bucket_length:
  "length w = length rs \<Longrightarrow>
   length (spec_bucket rs h) = length (rows_of_hour w (map r_time rs) h)"
  by (simp add: rows_of_hour_length spec_bucket_def filter_map comp_def)

lemma scenario_hour: "hour \<lparr>local_us = 63871344000000000, utcoffset = 0\<rparr> = 16"
  by (simp add: hour_def us_per_hour_def)

section \<open>The target hours partition the window\<close>

text \<open>
  Claim C10. The 24 target hours \<open>(current_hour - i) mod 24\<close>, \<open>i = 0..23\<close>, are pairwise
  distinct and are exactly the hours of the day 0 to 23. For a window whose timestamps all
  parse, the rows selected for a target hour are those whose hour of the day is that hour,
  the sizes of the 24 buckets add up to the length of the window, and every row of the
  window is in exactly one of the 24 buckets. And the aggregator works on these buckets:
  for a run time that parses and a window whose rows parse to the readings \<open>rs\<close>, it
  returns a report with one entry per target hour, in which the two averages of an hour are
  taken over the values of exactly the rows selected for that hour, one value per row; the
  sizes of the 24 sets of readings that are averaged add up to the length of the window,
  and every reading is averaged in exactly one hour.
\<close>

theorem hours_partition_window:
  "(map (row_datetime L) w = map Inr ds \<longrightarrow>
      distinct (last_24_hours ch) \<and> set (last_24_hours ch) = {0..23}
      \<and> map (data_for_hour L w) (last_24_hours ch)
           = map (\<lambda>h. Inr (rows_of_hour w ds h)) (last_24_hours ch)
      \<and> (\<Sum>h\<leftarrow>last_24_hours ch. length (rows_of_hour w ds h)) = length w
      \<and> (\<forall>(r, d)\<in>set (zip w ds).
           length (filter (\<lambda>h. r \<in> set (rows_of_hour w ds h)) (last_24_hours ch)) = 1))
   \<and> (strptime L (ts ctx) = Some run \<longrightarrow> map (parse_row L) w = map Some rs \<longrightarrow>
        (\<exists>rep. caluclate_avg_aq_per_hour L w ctx = Inr rep
           \<and> map fst rep = map str_int (last_24_hours (hour run))
           \<and> (\<forall>h\<in>set (last_24_hours (hour run)).
                data_for_hour L w h = Inr (rows_of_hour w (map r_time rs) h)
                \<and> mapE (row_float L ''pm2_5'') (rows_of_hour w (map r_time rs) h)
                    = Inr (map r_pm2_5 (spec_bucket rs h))
                \<and> mapE (row_float L ''pm10'') (rows_of_hour w (map r_time rs) h)
                    = Inr (map r_pm10 (spec_bucket rs h))
                \<and> length (spec_bucket rs h) = length (rows_of_hour w (map r_time rs) h)
                \<and> hour_entry L w h = Inr (spec_entry L rs h)
                \<and> map_of rep (str_int h) = Some (spec_entry L rs h))
           \<and> (\<Sum>h\<leftarrow>last_24_hours (hour run). length (spec_bucket rs h)) = length w
           \<and> (\<forall>x\<in>set rs.
                length (filter (\<lambda>h. x \<in> set (spec_bucket rs h)) (last_24_hours (hour run)))
                  = 1)))"
proof (intro conjI impI)
  assume rows: "map (row_datetime L) w = map Inr ds"
  have len: "length w = length ds"
    using rows by (metis length_map)
  have hrs: "\<forall>d\<in>set ds. hour d \<in> set (last_24_hours ch)"
    using hour_range by (simp add: last_24_hours_set)
  show "distinct (last_24_hours ch)" by (rule last_24_hours_distinct)
  show "set (last_24_hours ch) = {0..23}" by (rule last_24_hours_set)
  show "map (data_for_hour L w) (last_24_hours ch)
           = map (\<lambda>h. Inr (rows_of_hour w ds h)) (last_24_hours ch)"
    by (simp add: data_for_hour_rows [OF rows])
  show "(\<Sum>h\<leftarrow>last_24_hours ch. length (rows_of_hour w ds h)) = length w"
    using bucket_sizes [OF last_24_hours_distinct hrs] len
    by (simp add: rows_of_hour_length)
  show "\<forall>(r, d)\<in>set (zip w ds).
           length (filter (\<lambda>h. r \<in> set (rows_of_hour w ds h)) (last_24_hours ch)) = 1"
  proof (clarify)
    fix r d
    assume rd: "(r, d) \<in> set (zip w ds)"
    have "hour d \<in> set (last_24_hours ch)"
      using hour_range [of d] by (simp add: last_24_hours_set)
    then have "length (filter (\<lambda>h. hour d = h) (last_24_hours ch)) = 1"
      by (rule one_match [OF last_24_hours_distinct])
    then show "length (filter (\<lambda>h. r \<in> set (rows_of_hour w ds h)) (last_24_hours ch)) = 1"
      by (simp add: rows_of_hour_mem [OF rows rd])
  qed
next
  assume run: "strptime L (ts ctx) = Some run" and rs: "map (parse_row L) w = map Some rs"
  let ?hs = "last_24_hours (hour run)"
  from caluclate_parsed [OF run rs] obtain rep where
    rep: "caluclate_avg_aq_per_hour L w ctx = Inr rep" ..
  have len: "length w = length rs"
    using rs by (metis length_map)
  have keys: "map fst rep = map str_int ?hs"
    using run rep by (rule report_keys)
  have each: "data_for_hour L w h = Inr (rows_of_hour w (map r_time rs) h)
                \<and> mapE (row_float L ''pm2_5'') (rows_of_hour w (map r_time rs) h)
                    = Inr (map r_pm2_5 (spec_bucket rs h))
                \<and> mapE (row_float L ''pm10'') (rows_of_hour w (map r_time rs) h)
                    = Inr (map r_pm10 (spec_bucket rs h))
                \<and> length (spec_bucket rs h) = length (rows_of_hour w (map r_time rs) h)
                \<and> hour_entry L w h = Inr (spec_entry L rs h)
                \<and> map_of rep (str_int h) = Some (spec_entry L rs h)"
    if "h \<in> set ?hs" for h
  proof -
    from that have h: "h \<in> {0..23}" by (simp add: last_24_hours_set)
    have "map_of rep (str_int h) = Some (spec_entry L rs h)"
      using run rep h hour_entry_parsed [OF rs] by (rule report_lookup)
    then show ?thesis
      using bucket_floats [OF rs, of h] data_for_hour_rows [OF parsed_times [OF rs], of h]
        spec_bucket_length [OF len, of h] hour_entry_parsed [OF rs, of h]
      by simp
  qed
  have "\<forall>x\<in>set rs. hour (r_time x) \<in> set ?hs"
    using hour_range by (simp add: last_24_hours_set)
  from bucket_sizes [OF last_24_hours_distinct this] len
  have sizes: "(\<Sum>h\<leftarrow>?hs. length (spec_bucket rs h)) = length w"
    by (simp add: spec_bucket_def)
  have once: "length (filter (\<lambda>h. x \<in> set (spec_bucket rs h)) ?hs) = 1"
    if "x \<in> set rs" for x
  proof -
    have "hour (r_time x) \<in> set ?hs"
      using hour_range [of "r_time x"] by (simp add: last_24_hours_set)
    then have "length (filter (\<lambda>h. hour (r_time x) = h) ?hs) = 1"
      by (rule one_match [OF last_24_hours_distinct])
    with that show ?thesis by (simp add: spec_bucket_def)
  qed
  from rep keys each sizes once
  show "\<exists>rep. caluclate_avg_aq_per_hour L w ctx = Inr rep
           \<and> map fst rep = map str_int ?hs
           \<and> (\<forall>h\<in>set ?hs.
                data_for_hour L w h = Inr (rows_of_hour w (map r_time rs) h)
                \<and> mapE (row_float L ''pm2_5'') (rows_of_hour w (map r_time rs) h)
                    = Inr (map r_pm2_5 (spec_bucket rs h))
                \<and> mapE (row_float L ''pm10'') (rows_of_hour w (map r_time rs) h)
                    = Inr (map r_pm10 (spec_bucket rs h))
                \<and> length (spec_bucket rs h) = length (rows_of_hour w (map r_time rs) h)
                \<and> hour_entry L w h = Inr (spec_entry L rs h)
                \<and> map_of rep (str_int h) = Some (spec_entry L rs h))
           \<and> (\<Sum>h\<leftarrow>?hs. length (spec_bucket rs h)) = length w
           \<and> (\<forall>x\<in>set rs. length (filter (\<lambda>h. x \<in> set (spec_bucket rs h)) ?hs) = 1)"
    by blast
qed

theorem hours_partition_window_witness:
  "map (row_datetime exact_lib) scenario_window = map Inr scenario_times
   \<and> strptime exact_lib (ts scenario_ctx) = Some \<lparr>local_us = 63871344000000000, utcoffset = 0\<rparr>
   \<and> map (parse_row exact_lib) scenario_window = map Some scenario_readings
   \<and> distinct (last_24_hours 16) \<and> set (last_24_hours 16) = {0..23}
   \<and> map (data_for_hour exact_lib scenario_window) (last_24_hours 16)
          = map (\<lambda>h. Inr (rows_of_hour scenario_window scenario_times h)) (last_24_hours 16)
   \<and> (\<Sum>h\<leftarrow>last_24_hours 16. length (rows_of_hour scenario_window scenario_times h)) = 3
   \<and> length (filter (\<lambda>h. scenario_window ! 0 \<in> set (rows_of_hour scenario_window scenario_times h))
                    (last_24_hours 16)) = 1
   \<and> length (filter (\<lambda>h. scenario_window ! 1 \<in> set (rows_of_hour scenario_window scenario_times h))
                    (last_24_hours 16)) = 1
   \<and> length (filter (\<lambda>h. scenario_window ! 2 \<in> set (rows_of_hour scenario_window scenario_times h))
                    (last_24_hours 16)) = 1
   \<and> caluclate_avg_aq_per_hour exact_lib scenario_window scenario_ctx = Inr full_scenario_report
   \<and> map fst full_scenario_report = map str_int (last_24_hours 16)
   \<and> hour_entry exact_lib scenario_window 15 = Inr (spec_entry exact_lib scenario_readings 15)
   \<and> map_of full_scenario_report (str_int 15) = Some (spec_entry exact_lib scenario_readings 15)
   \<and> length (spec_bucket scenario_readings 15) = 2
   \<and> length (rows_of_hour scenario_window (map r_time scenario_readings) 15) = 2
   \<and> (\<Sum>h\<leftarrow>last_24_hours 16. length (spec_bucket scenario_readings h)) = 3
   \<and> length (filter (\<lambda>h. scenario_readings ! 0 \<in> set (spec_bucket scenario_readings h))
                (last_24_hours 16)) = 1
   \<and> length (filter (\<lambda>h. scenario_readings ! 1 \<in> set (spec_bucket scenario_readings h))
                (last_24_hours 16)) = 1
   \<and> length (filter (\<lambda>h. scenario_readings ! 2 \<in> set (spec_bucket scenario_readings h))
                (last_24_hours 16)) = 1"
proof -
  note t = hours_partition_window [of exact_lib scenario_window scenario_times 16 scenario_ctx
      "\<lparr>local_us = 63871344000000000, utcoffset = 0\<rparr>" scenario_readings]
  have z: "zip scenario_window scenario_times
            = [(scenario_window ! 0, scenario_times ! 0), (scenario_window ! 1, scenario_times ! 1),
               (scenario_window ! 2, scenario_times ! 2)]"
    by (simp add: scenario_window_def scenario_times_def)
  have l: "length scenario_window = 3" by (simp add: scenario_window_def)
  from t scenario_times_parsed have
    a: "distinct (last_24_hours 16)" "set (last_24_hours 16) = {0..23}"
      "map (data_for_hour exact_lib scenario_window) (last_24_hours 16)
          = map (\<lambda>h. Inr (rows_of_hour scenario_window scenario_times h)) (last_24_hours 16)"
      "(\<Sum>h\<leftarrow>last_24_hours 16. length (rows_of_hour scenario_window scenario_times h)) = 3"
    and b: "\<forall>(r, d)\<in>set (zip scenario_window scenario_times).
           length (filter (\<lambda>h. r \<in> set (rows_of_hour scenario_window scenario_times h))
                     (last_24_hours 16)) = 1"
    unfolding l by blast+
  from b have
    c: "length (filter (\<lambda>h. scenario_window ! 0 \<in> set (rows_of_hour scenario_window scenario_times h))
                    (last_24_hours 16)) = 1"
       "length (filter (\<lambda>h. scenario_window ! 1 \<in> set (rows_of_hour scenario_window scenario_times h))
                    (last_24_hours 16)) = 1"
       "length (filter (\<lambda>h. scenario_window ! 2 \<in> set (rows_of_hour scenario_window scenario_times h))
                    (last_24_hours 16)) = 1"
    unfolding z by simp_all
  from t scenario_run_parsed scenario_readings_parsed scenario_report_value have
    d: "map fst full_scenario_report = map str_int (last_24_hours 16)"
    and e: "\<forall>h\<in>set (last_24_hours 16).
              length (spec_bucket scenario_readings h)
                = length (rows_of_hour scenario_window (map r_time scenario_readings) h)
              \<and> hour_entry exact_lib scenario_window h
                  = Inr (spec_entry exact_lib scenario_readings h)
              \<and> map_of full_scenario_report (str_int h)
                  = Some (spec_entry exact_lib scenario_readings h)"
    and f: "(\<Sum>h\<leftarrow>last_24_hours 16. length (spec_bucket scenario_readings h)) = 3"
    and g: "\<forall>x\<in>set scenario_readings.
              length (filter (\<lambda>h. x \<in> set (spec_bucket scenario_readings h)) (last_24_hours 16))
                = 1"
    unfolding l scenario_hour by auto
  have "(15::int) \<in> set (last_24_hours 16)"
    by (simp add: last_24_hours_set)
  with e have
    h15: "hour_entry exact_lib scenario_window 15 = Inr (spec_entry exact_lib scenario_readings 15)"
       "map_of full_scenario_report (str_int 15) = Some (spec_entry exact_lib scenario_readings 15)"
       "length (spec_bucket scenario_readings 15)
          = length (rows_of_hour scenario_window (map r_time scenario_readings) 15)"
    by blast+
  have n15: "length (spec_bucket scenario_readings 15) = 2"
    by (simp add: scenario_buckets)
  have "scenario_readings ! 0 \<in> set scenario_readings"
    "scenario_readings ! 1 \<in> set scenario_readings"
    "scenario_readings ! 2 \<in> set scenario_readings"
    by (simp_all add: scenario_readings_def)
  with g have
    i: "length (filter (\<lambda>h. scenario_readings ! 0 \<in> set (spec_bucket scenario_readings h))
                (last_24_hours 16)) = 1"
       "length (filter (\<lambda>h. scenario_readings ! 1 \<in> set (spec_bucket scenario_readings h))
                (last_24_hours 16)) = 1"
       "length (filter (\<lambda>h. scenario_readings ! 2 \<in> set (spec_bucket scenario_readings h))
                (last_24_hours 16)) = 1"
    by blast+
  from a c d h15 n15 f i scenario_times_parsed scenario_run_parsed scenario_readings_parsed
    scenario_report_value
  show ?thesis by simp
qed

end
